theory Spec2Isabelle
  imports Complex_Main "HOL-Library.Word"
begin

section \<open>Data model\<close>

text \<open>
  The parser of \<^verbatim>\<open>includes/sjson/parser.h\<close> is embedded by explicit state passing:
  the immutable input buffer is a \<^typ>\<open>string\<close> (a list of bytes), the mutable member
  \<^verbatim>\<open>m_state\<close> is a record that every operation takes and returns, and the \<^verbatim>\<open>bool\<close>
  result of an operation is the first component of the returned tuple. Output
  parameters passed by reference are modelled by passing the old value in and the new
  value out.
\<close>

text \<open>
  Modelled from the spec: the error kinds of \<^verbatim>\<open>parser_error.h\<close>, which is not among the
  sources. The constructors are the enumerators that \<^verbatim>\<open>parser.h\<close> names; \<open>NoError\<close>
  stands for the enumerator \<^verbatim>\<open>None\<close> of a freshly constructed error.
\<close>

datatype ErrorCode =
    NoError
  | InputTruncated
  | OpeningBraceExpected
  | ClosingBraceExpected
  | EqualSignExpected
  | OpeningBracketExpected
  | ClosingBracketExpected
  | CommaExpected
  | CommentBeginsIncorrectly
  | CannotUseQuotationMarkInUnquotedString
  | KeyExpected
  | IncorrectKey
  | TrueOrFalseExpected
  | QuotationMarkExpected
  | NumberExpected
  | NumberIsTooLong
  | InvalidNumber
  | NumberCouldNotBeConverted
  | UnexpectedContentAtEnd

text \<open>
  Modelled from the spec: \<^verbatim>\<open>ParserError\<close> (\<^verbatim>\<open>parser_error.h\<close>) and \<^verbatim>\<open>ParserState\<close>
  (\<^verbatim>\<open>parser_state.h\<close>), whose declarations are not among the sources. The fields are
  the ones \<^verbatim>\<open>parser.h\<close> reads and writes; \<^verbatim>\<open>line\<close> and \<^verbatim>\<open>column\<close> are
  \<^verbatim>\<open>uint32_t\<close>, the offset is a \<^verbatim>\<open>size_t\<close>.
\<close>

record ParserError =
  error_code :: ErrorCode
  error_line :: "32 word"
  error_column :: "32 word"

record ParserState =
  offset :: nat
  line :: "32 word"
  column :: "32 word"
  symbol :: char
  error :: ParserError

text \<open>
  Modelled from the spec: the constructor \<^verbatim>\<open>ParserState(input, input_length)\<close>. The cursor
  starts at offset 0, line 1, column 1, on the first byte of the input (the sentinel
  \<^verbatim>\<open>'\0'\<close> when the input is empty), with no error.
\<close>

definition ParserState_init :: "string \<Rightarrow> ParserState" where
  "ParserState_init input =
     \<lparr>offset = 0, line = 1, column = 1,
      symbol = (if 0 < length input then input ! 0 else CHR 0x00),
      error = \<lparr>error_code = NoError, error_line = 0, error_column = 0\<rparr>\<rparr>"

text \<open>
  Modelled from the spec: \<^verbatim>\<open>StringView\<close> (\<^verbatim>\<open>string_view.h\<close>, not among the sources), a
  borrowed slice of the input given by its start offset and its length, or the
  "no value" sentinel that \<^verbatim>\<open>value = nullptr\<close> and the default constructor produce.
\<close>

datatype StringView = NullView | StringView nat nat

fun view_bytes :: "string \<Rightarrow> StringView \<Rightarrow> string" where
  "view_bytes input NullView = []"
| "view_bytes input (StringView start len) = take len (drop start input)"

text \<open>
  Modelled from the spec: \<^verbatim>\<open>StringView::operator!=(const char*)\<close>, a byte-for-byte,
  case-sensitive comparison of the slice with the requested name.
\<close>

definition view_differs :: "string \<Rightarrow> StringView \<Rightarrow> string \<Rightarrow> bool" where
  "view_differs input v name = (view_bytes input v \<noteq> name)"

subsection \<open>Machine arithmetic and character classes\<close>

text \<open>
  \<^verbatim>\<open>size_t\<close> subtraction and addition wrap around (64 bits); the slice lengths are
  computed as \<^verbatim>\<open>end_offset - start_offset + 1\<close> with \<^verbatim>\<open>end_offset = offset - 1\<close>, where the
  intermediate value does wrap for an empty slice.
\<close>

definition size_t_sub :: "nat \<Rightarrow> nat \<Rightarrow> nat" where
  "size_t_sub a b = nat ((int a - int b) mod 2 ^ 64)"

definition size_t_add :: "nat \<Rightarrow> nat \<Rightarrow> nat" where
  "size_t_add a b = nat ((int a + int b) mod 2 ^ 64)"

text \<open>
  \<^verbatim>\<open>std::isspace\<close> and \<^verbatim>\<open>std::isdigit\<close> in the "C" locale: space, \<^verbatim>\<open>\t \n \v \f \r\<close>,
  and the ten decimal digits. No byte above 127 is in either class.
\<close>

definition isspace :: "char \<Rightarrow> bool" where
  "isspace c = (c = CHR '' '' \<or> c = CHR 0x09 \<or> c = CHR 0x0A \<or> c = CHR 0x0B
                \<or> c = CHR 0x0C \<or> c = CHR 0x0D)"

definition isdigit :: "char \<Rightarrow> bool" where
  "isdigit c = (c \<in> set ''0123456789'')"

definition MAX_NUMBER_LENGTH :: nat where
  "MAX_NUMBER_LENGTH = 64"

section \<open>The cursor\<close>

definition eof :: "string \<Rightarrow> ParserState \<Rightarrow> bool" where
  "eof input s = (length input \<le> offset s)"

definition save_state :: "ParserState \<Rightarrow> ParserState" where
  "save_state s = s"

definition restore_state :: "ParserState \<Rightarrow> ParserState \<Rightarrow> ParserState" where
  "restore_state saved s = saved"

definition reset_state :: "string \<Rightarrow> ParserState \<Rightarrow> ParserState" where
  "reset_state input s = ParserState_init input"

definition get_position :: "ParserState \<Rightarrow> 32 word \<times> 32 word" where
  "get_position s = (line s, column s)"

definition get_error :: "ParserState \<Rightarrow> ParserError" where
  "get_error s = error s"

definition set_error :: "ErrorCode \<Rightarrow> ParserState \<Rightarrow> ParserState" where
  "set_error e s =
     s\<lparr>error := \<lparr>error_code = e, error_line = line s, error_column = column s\<rparr>\<rparr>"

text \<open>
  \<^verbatim>\<open>advance()\<close>: the increment of the offset cannot wrap, since it happens only below
  the input length.
\<close>

definition advance :: "string \<Rightarrow> ParserState \<Rightarrow> bool \<times> ParserState" where
  "advance input s =
     (if eof input s then (False, s)
      else
        (let s1 = s\<lparr>offset := offset s + 1\<rparr> in
         if eof input s1 then (True, s1\<lparr>symbol := CHR 0x00\<rparr>)
         else
           (let s2 = s1\<lparr>symbol := input ! offset s1\<rparr> in
            if symbol s2 = CHR 0x0A then (True, s2\<lparr>line := line s2 + 1, column := 1\<rparr>)
            else (True, s2\<lparr>column := column s2 + 1\<rparr>))))"

lemma offset_advance:
  "offset (snd (advance input s)) = (if eof input s then offset s else offset s + 1)"
  by (simp add: advance_def Let_def)

lemma offset_advance_le: "offset s \<le> offset (snd (advance input s))"
  by (simp add: offset_advance)

section \<open>Whitespace and comments\<close>

text \<open>The loop \<^verbatim>\<open>while (!eof() && m_state.symbol != '\n') advance();\<close> of a line comment.\<close>

function line_comment_loop :: "string \<Rightarrow> ParserState \<Rightarrow> ParserState" where
  "line_comment_loop input s =
     (if \<not> eof input s \<and> symbol s \<noteq> CHR 0x0A
      then line_comment_loop input (snd (advance input s))
      else s)"
  by pat_completeness auto
termination
  by (relation "measure (\<lambda>(input, s). length input - offset s)")
     (auto simp: offset_advance eof_def)

text \<open>The \<^verbatim>\<open>while (true)\<close> loop of a block comment, with its flag \<^verbatim>\<open>wasAsterisk\<close>.\<close>

function block_comment_loop :: "string \<Rightarrow> bool \<Rightarrow> ParserState \<Rightarrow> bool \<times> ParserState" where
  "block_comment_loop input wasAsterisk s =
     (if eof input s then (False, set_error InputTruncated s)
      else if symbol s = CHR ''*'' then block_comment_loop input True (snd (advance input s))
      else if wasAsterisk \<and> symbol s = CHR ''/'' then (True, snd (advance input s))
      else block_comment_loop input False (snd (advance input s)))"
  by pat_completeness auto
termination
  by (relation "measure (\<lambda>(input, w, s). length input - offset s)")
     (auto simp: offset_advance eof_def)

definition read_comment :: "string \<Rightarrow> ParserState \<Rightarrow> bool \<times> ParserState" where
  "read_comment input s =
     (if eof input s then (False, set_error InputTruncated s)
      else if symbol s = CHR ''/'' then (True, line_comment_loop input s)
      else if symbol s = CHR ''*'' then block_comment_loop input False (snd (advance input s))
      else (False, set_error CommentBeginsIncorrectly s))"

text \<open>
  \<^verbatim>\<open>skip_comments_and_whitespace()\<close>: only the whitespace branch continues the loop;
  after a comment the function returns.
\<close>

function skip_comments_and_whitespace :: "string \<Rightarrow> ParserState \<Rightarrow> bool \<times> ParserState" where
  "skip_comments_and_whitespace input s =
     (if eof input s then (True, s)
      else if isspace (symbol s)
      then skip_comments_and_whitespace input (snd (advance input s))
      else if symbol s = CHR ''/''
      then (case read_comment input (snd (advance input s)) of
              (False, s') \<Rightarrow> (False, s')
            | (True, s') \<Rightarrow> (True, s'))
      else (True, s))"
  by pat_completeness auto
termination
  by (relation "measure (\<lambda>(input, s). length input - offset s)")
     (auto simp: offset_advance eof_def)

definition skip_comments_and_whitespace_fail_if_eof ::
  "string \<Rightarrow> ParserState \<Rightarrow> bool \<times> ParserState" where
  "skip_comments_and_whitespace_fail_if_eof input s =
     (case skip_comments_and_whitespace input s of
        (False, s') \<Rightarrow> (False, s')
      | (True, s') \<Rightarrow>
          if eof input s' then (False, set_error InputTruncated s') else (True, s'))"

definition remainder_is_comments_and_whitespace ::
  "string \<Rightarrow> ParserState \<Rightarrow> bool \<times> ParserState" where
  "remainder_is_comments_and_whitespace input s =
     (case skip_comments_and_whitespace input s of
        (False, s') \<Rightarrow> (False, s')
      | (True, s') \<Rightarrow>
          if \<not> eof input s' then (False, set_error UnexpectedContentAtEnd s')
          else (True, s'))"

declare line_comment_loop.simps [simp del]
declare block_comment_loop.simps [simp del]
declare skip_comments_and_whitespace.simps [simp del]

section \<open>Structural symbols\<close>

text \<open>The C++ \<^verbatim>\<open>a && b\<close> on two state-changing operations: \<open>b\<close> runs only if \<open>a\<close> returned true.\<close>

definition and_then ::
  "bool \<times> ParserState \<Rightarrow> (ParserState \<Rightarrow> bool \<times> ParserState) \<Rightarrow> bool \<times> ParserState" where
  "and_then r f = (case r of (False, s) \<Rightarrow> (False, s) | (True, s) \<Rightarrow> f s)"

definition read_symbol :: "char \<Rightarrow> ErrorCode \<Rightarrow> string \<Rightarrow> ParserState \<Rightarrow> bool \<times> ParserState" where
  "read_symbol expected reason_if_other_found input s =
     (case skip_comments_and_whitespace_fail_if_eof input s of
        (False, s') \<Rightarrow> (False, s')
      | (True, s') \<Rightarrow>
          if symbol s' = expected then (True, snd (advance input s'))
          else (False, set_error reason_if_other_found s'))"

definition read_equal_sign :: "string \<Rightarrow> ParserState \<Rightarrow> bool \<times> ParserState" where
  "read_equal_sign = read_symbol (CHR ''='') EqualSignExpected"

definition read_opening_brace :: "string \<Rightarrow> ParserState \<Rightarrow> bool \<times> ParserState" where
  "read_opening_brace = read_symbol (CHR ''{'') OpeningBraceExpected"

definition read_closing_brace :: "string \<Rightarrow> ParserState \<Rightarrow> bool \<times> ParserState" where
  "read_closing_brace = read_symbol (CHR ''}'') ClosingBraceExpected"

definition read_opening_bracket :: "string \<Rightarrow> ParserState \<Rightarrow> bool \<times> ParserState" where
  "read_opening_bracket = read_symbol (CHR ''['') OpeningBracketExpected"

definition read_closing_bracket :: "string \<Rightarrow> ParserState \<Rightarrow> bool \<times> ParserState" where
  "read_closing_bracket = read_symbol (CHR '']'') ClosingBracketExpected"

definition read_comma :: "string \<Rightarrow> ParserState \<Rightarrow> bool \<times> ParserState" where
  "read_comma = read_symbol (CHR '','') CommaExpected"

section \<open>Strings and keys\<close>

text \<open>The \<^verbatim>\<open>while (true)\<close> loop of \<^verbatim>\<open>read_string\<close>; it yields \<^verbatim>\<open>end_offset\<close>, or nothing on failure.\<close>

function read_string_loop :: "string \<Rightarrow> ParserState \<Rightarrow> nat option \<times> ParserState" where
  "read_string_loop input s =
     (if eof input s then (None, set_error InputTruncated s)
      else if symbol s = CHR 0x22 then (Some (size_t_sub (offset s) 1), snd (advance input s))
      else
        (let s1 = (if symbol s = CHR 0x5C then snd (advance input s) else s)
         in read_string_loop input (snd (advance input s1))))"
  by pat_completeness auto
termination
  by (relation "measure (\<lambda>(input, s). length input - offset s)")
     (auto simp: offset_advance eof_def split: if_splits)

definition read_string ::
  "string \<Rightarrow> StringView \<Rightarrow> ParserState \<Rightarrow> bool \<times> StringView \<times> ParserState" where
  "read_string input value s =
     (case skip_comments_and_whitespace_fail_if_eof input s of
        (False, s1) \<Rightarrow> (False, value, s1)
      | (True, s1) \<Rightarrow>
          if symbol s1 \<noteq> CHR 0x22 then (False, value, set_error QuotationMarkExpected s1)
          else
            (let s2 = snd (advance input s1);
                 start_offset = offset s2
             in case read_string_loop input s2 of
                  (None, s3) \<Rightarrow> (False, value, s3)
                | (Some end_offset, s3) \<Rightarrow>
                    (True,
                     StringView start_offset (size_t_add (size_t_sub end_offset start_offset) 1),
                     s3)))"

function read_unquoted_key_loop ::
  "string \<Rightarrow> nat \<Rightarrow> ParserState \<Rightarrow> nat option \<times> ParserState" where
  "read_unquoted_key_loop input start_offset s =
     (if eof input s then (Some (size_t_sub (offset s) 1), s)
      else if symbol s = CHR 0x22
      then (None, set_error CannotUseQuotationMarkInUnquotedString s)
      else if symbol s = CHR ''=''
      then (if offset s = start_offset then (None, set_error KeyExpected s)
            else (Some (size_t_sub (offset s) 1), s))
      else if isspace (symbol s)
      then (Some (size_t_sub (offset s) 1), snd (advance input s))
      else read_unquoted_key_loop input start_offset (snd (advance input s)))"
  by pat_completeness auto
termination
  by (relation "measure (\<lambda>(input, st, s). length input - offset s)")
     (auto simp: offset_advance eof_def)

definition read_unquoted_key ::
  "string \<Rightarrow> StringView \<Rightarrow> ParserState \<Rightarrow> bool \<times> StringView \<times> ParserState" where
  "read_unquoted_key input value s =
     (if eof input s then (False, value, set_error InputTruncated s)
      else
        (let start_offset = offset s
         in case read_unquoted_key_loop input start_offset s of
              (None, s1) \<Rightarrow> (False, value, s1)
            | (Some end_offset, s1) \<Rightarrow>
                (True,
                 StringView start_offset (size_t_add (size_t_sub end_offset start_offset) 1),
                 s1)))"

text \<open>
  The key token of \<^verbatim>\<open>read_key\<close>: a quoted string if the cursor is on a quotation mark,
  an unquoted key otherwise; \<^verbatim>\<open>actual\<close> starts as a default-constructed view.
\<close>

definition read_key_token :: "string \<Rightarrow> ParserState \<Rightarrow> bool \<times> StringView \<times> ParserState" where
  "read_key_token input s =
     (if symbol s = CHR 0x22 then read_string input NullView s
      else read_unquoted_key input NullView s)"

definition read_key :: "string \<Rightarrow> string \<Rightarrow> ParserState \<Rightarrow> bool \<times> ParserState" where
  "read_key input having_name s =
     (case skip_comments_and_whitespace_fail_if_eof input s of
        (False, s1) \<Rightarrow> (False, s1)
      | (True, s1) \<Rightarrow>
          (let start_of_key = save_state s1
           in case read_key_token input s1 of
                (False, actual, s2) \<Rightarrow> (False, s2)
              | (True, actual, s2) \<Rightarrow>
                  if view_differs input actual having_name
                  then (False, set_error IncorrectKey (restore_state start_of_key s2))
                  else (True, s2)))"

declare read_string_loop.simps [simp del]
declare read_unquoted_key_loop.simps [simp del]

section \<open>Booleans\<close>

text \<open>One conjunct pair \<^verbatim>\<open>m_state.symbol == c && advance()\<close> of \<^verbatim>\<open>read_bool\<close>.\<close>

definition symbol_is_and_advance :: "char \<Rightarrow> string \<Rightarrow> ParserState \<Rightarrow> bool \<times> ParserState" where
  "symbol_is_and_advance c input s = (if symbol s = c then advance input s else (False, s))"

definition read_bool :: "string \<Rightarrow> bool \<Rightarrow> ParserState \<Rightarrow> bool \<times> bool \<times> ParserState" where
  "read_bool input value s =
     (case skip_comments_and_whitespace_fail_if_eof input s of
        (False, s1) \<Rightarrow> (False, value, s1)
      | (True, s1) \<Rightarrow>
          (let start_of_literal = save_state s1;
               failed = (\<lambda>s'. (False, value,
                          set_error TrueOrFalseExpected (restore_state start_of_literal s')))
           in if symbol s1 = CHR ''t''
              then (case and_then (and_then
                            (symbol_is_and_advance (CHR ''r'') input (snd (advance input s1)))
                            (symbol_is_and_advance (CHR ''u'') input))
                            (symbol_is_and_advance (CHR ''e'') input) of
                      (True, s2) \<Rightarrow> (True, True, s2)
                    | (False, s2) \<Rightarrow> failed s2)
              else if symbol s1 = CHR ''f''
              then (case and_then (and_then (and_then
                            (symbol_is_and_advance (CHR ''a'') input (snd (advance input s1)))
                            (symbol_is_and_advance (CHR ''l'') input))
                            (symbol_is_and_advance (CHR ''s'') input))
                            (symbol_is_and_advance (CHR ''e'') input) of
                      (True, s2) \<Rightarrow> (True, False, s2)
                    | (False, s2) \<Rightarrow> failed s2)
              else failed s1))"

section \<open>Numbers\<close>

text \<open>
  The loop \<^verbatim>\<open>while (std::isdigit(m_state.symbol)) advance();\<close>. It does not test
  \<^verbatim>\<open>eof()\<close>: in a state whose symbol is a digit at end of input \<^verbatim>\<open>advance()\<close> changes
  nothing and the loop does not return, which is the value \<open>None\<close> here.
\<close>

partial_function (option) digits_loop :: "string \<Rightarrow> ParserState \<Rightarrow> ParserState option" where
  "digits_loop input s =
     (if isdigit (symbol s) then digits_loop input (snd (advance input s)) else Some s)"

declare digits_loop.simps [code]

text \<open>
  The lexeme matching of \<^verbatim>\<open>read_double\<close>, block by block (the optional minus sign
  and the integer part, the fraction, the exponent), and the conversion of the matched
  lexeme. The C library's \<^verbatim>\<open>strtod\<close> is a parameter: it maps the bytes of the
  scratch buffer to the converted value and the number of bytes it used.
\<close>

definition read_double_integer_part ::
  "string \<Rightarrow> ParserState \<Rightarrow> (bool \<times> ParserState) option" where
  "read_double_integer_part input s =
     (if symbol s = CHR ''0'' then Some (True, snd (advance input s))
      else if isdigit (symbol s) then map_option (Pair True) (digits_loop input s)
      else Some (False, set_error NumberExpected s))"

definition read_double_fraction_part :: "string \<Rightarrow> ParserState \<Rightarrow> ParserState option" where
  "read_double_fraction_part input s =
     (if symbol s = CHR ''.'' then digits_loop input (snd (advance input s))
      else Some s)"

definition read_double_exponent_part ::
  "string \<Rightarrow> ParserState \<Rightarrow> (bool \<times> ParserState) option" where
  "read_double_exponent_part input s =
     (if symbol s = CHR ''e'' \<or> symbol s = CHR ''E''
      then (let s1 = snd (advance input s)
            in if symbol s1 = CHR ''+'' \<or> symbol s1 = CHR ''-''
               then map_option (Pair True) (digits_loop input (snd (advance input s1)))
               else if \<not> isdigit (symbol s1)
               then Some (False, set_error InvalidNumber s1)
               else map_option (Pair True) (digits_loop input s1))
      else Some (True, s))"

definition read_double_lexeme :: "string \<Rightarrow> ParserState \<Rightarrow> (bool \<times> ParserState) option" where
  "read_double_lexeme input s1 =
     (let s2 = (if symbol s1 = CHR ''-'' then snd (advance input s1) else s1)
      in case read_double_integer_part input s2 of
           None \<Rightarrow> None
         | Some (False, s3) \<Rightarrow> Some (False, s3)
         | Some (True, s3) \<Rightarrow>
             (case read_double_fraction_part input s3 of
                None \<Rightarrow> None
              | Some s4 \<Rightarrow> read_double_exponent_part input s4))"

definition read_double_convert ::
  "(string \<Rightarrow> 'd \<times> nat) \<Rightarrow> string \<Rightarrow> nat \<Rightarrow> 'd \<Rightarrow> ParserState \<Rightarrow> bool \<times> 'd \<times> ParserState" where
  "read_double_convert strtod input start_offset value s =
     (let end_offset = size_t_sub (offset s) 1;
          len = size_t_add (size_t_sub end_offset start_offset) 1
      in if MAX_NUMBER_LENGTH \<le> len then (False, value, set_error NumberIsTooLong s)
         else
           (let slice = take len (drop start_offset input);
                (v, last_used_symbol) = strtod slice
            in if last_used_symbol \<noteq> len
               then (False, v, set_error NumberCouldNotBeConverted s)
               else (True, v, s)))"

definition read_double ::
  "(string \<Rightarrow> 'd \<times> nat) \<Rightarrow> string \<Rightarrow> 'd \<Rightarrow> ParserState \<Rightarrow> (bool \<times> 'd \<times> ParserState) option" where
  "read_double strtod input value s =
     (case skip_comments_and_whitespace_fail_if_eof input s of
        (False, s1) \<Rightarrow> Some (False, value, s1)
      | (True, s1) \<Rightarrow>
          (case read_double_lexeme input s1 of
             None \<Rightarrow> None
           | Some (False, s2) \<Rightarrow> Some (False, value, s2)
           | Some (True, s2) \<Rightarrow> Some (read_double_convert strtod input (offset s1) value s2)))"

text \<open>
  A conversion routine to instantiate \<open>strtod\<close> with on concrete inputs: the exact value
  of the longest decimal prefix (sign, digits, fraction, exponent) and the length of
  that prefix. It computes exact reals: it does not round to a \<^verbatim>\<open>double\<close> and does
  not overflow to infinity, so it stands for the C library only on lexemes whose value a
  \<^verbatim>\<open>double\<close> holds exactly, such as \<^verbatim>\<open>3.5\<close>. It is used only to evaluate concrete
  inputs; every general theorem takes \<open>strtod\<close> as a parameter.
\<close>

definition digits_value :: "string \<Rightarrow> int" where
  "digits_value ds = foldl (\<lambda>a c. 10 * a + (of_char c - 48)) 0 ds"

definition strtod_decimal :: "string \<Rightarrow> real \<times> nat" where
  "strtod_decimal buf =
     (let negative = (buf \<noteq> [] \<and> hd buf = CHR ''-'');
          r0 = (if negative then tl buf else buf);
          ip = takeWhile isdigit r0;
          r1 = dropWhile isdigit r0;
          has_point = (r1 \<noteq> [] \<and> hd r1 = CHR ''.'');
          fp = (if has_point then takeWhile isdigit (tl r1) else []);
          r2 = (if has_point then dropWhile isdigit (tl r1) else r1)
      in if ip = [] \<and> fp = [] then (0, 0)
         else
           (let m = real_of_int (digits_value (ip @ fp)) / 10 ^ length fp;
                has_exp = (r2 \<noteq> [] \<and> (hd r2 = CHR ''e'' \<or> hd r2 = CHR ''E''));
                r3 = (if has_exp then tl r2 else r2);
                exp_negative = (r3 \<noteq> [] \<and> hd r3 = CHR ''-'');
                r4 = (if r3 \<noteq> [] \<and> (hd r3 = CHR ''-'' \<or> hd r3 = CHR ''+'') then tl r3 else r3);
                ed = takeWhile isdigit r4;
                with_exp = (has_exp \<and> ed \<noteq> []);
                scaled = (if \<not> with_exp then m
                          else if exp_negative then m / 10 ^ nat (digits_value ed)
                          else m * 10 ^ nat (digits_value ed));
                rest = (if with_exp then dropWhile isdigit r4 else r2)
            in ((if negative then - scaled else scaled), length buf - length rest)))"

section \<open>The public operations\<close>

definition object_begins :: "string \<Rightarrow> ParserState \<Rightarrow> bool \<times> ParserState" where
  "object_begins = read_opening_brace"

definition object_begins_named :: "string \<Rightarrow> string \<Rightarrow> ParserState \<Rightarrow> bool \<times> ParserState" where
  "object_begins_named input having_name s =
     and_then (and_then (read_key input having_name s) (read_equal_sign input))
       (object_begins input)"

definition object_ends :: "string \<Rightarrow> ParserState \<Rightarrow> bool \<times> ParserState" where
  "object_ends = read_closing_brace"

definition array_begins :: "string \<Rightarrow> ParserState \<Rightarrow> bool \<times> ParserState" where
  "array_begins = read_opening_bracket"

definition array_begins_named :: "string \<Rightarrow> string \<Rightarrow> ParserState \<Rightarrow> bool \<times> ParserState" where
  "array_begins_named input having_name s =
     and_then (and_then (read_key input having_name s) (read_equal_sign input))
       (read_opening_bracket input)"

definition array_ends :: "string \<Rightarrow> ParserState \<Rightarrow> bool \<times> ParserState" where
  "array_ends = read_closing_bracket"

definition try_array_begins :: "string \<Rightarrow> string \<Rightarrow> ParserState \<Rightarrow> bool \<times> ParserState" where
  "try_array_begins input having_name s =
     (let saved = save_state s
      in case array_begins_named input having_name s of
           (False, s1) \<Rightarrow> (False, restore_state saved s1)
         | (True, s1) \<Rightarrow> (True, s1))"

definition try_array_ends :: "string \<Rightarrow> ParserState \<Rightarrow> bool \<times> ParserState" where
  "try_array_ends input s =
     (let saved = save_state s
      in case array_ends input s of
           (False, s1) \<Rightarrow> (False, restore_state saved s1)
         | (True, s1) \<Rightarrow> (True, s1))"

text \<open>The overloads of \<^verbatim>\<open>read\<close>, named after the type of the value they read.\<close>

definition read_StringView ::
  "string \<Rightarrow> string \<Rightarrow> StringView \<Rightarrow> ParserState \<Rightarrow> bool \<times> StringView \<times> ParserState" where
  "read_StringView input key value s =
     (case and_then (read_key input key s) (read_equal_sign input) of
        (False, s1) \<Rightarrow> (False, value, s1)
      | (True, s1) \<Rightarrow> read_string input value s1)"

definition read_bool_keyed ::
  "string \<Rightarrow> string \<Rightarrow> bool \<Rightarrow> ParserState \<Rightarrow> bool \<times> bool \<times> ParserState" where
  "read_bool_keyed input key value s =
     (case and_then (read_key input key s) (read_equal_sign input) of
        (False, s1) \<Rightarrow> (False, value, s1)
      | (True, s1) \<Rightarrow> read_bool input value s1)"

definition read_double_keyed ::
  "(string \<Rightarrow> 'd \<times> nat) \<Rightarrow> string \<Rightarrow> string \<Rightarrow> 'd \<Rightarrow> ParserState
   \<Rightarrow> (bool \<times> 'd \<times> ParserState) option" where
  "read_double_keyed strtod input key value s =
     (case and_then (read_key input key s) (read_equal_sign input) of
        (False, s1) \<Rightarrow> Some (False, value, s1)
      | (True, s1) \<Rightarrow> read_double strtod input value s1)"

text \<open>
  \<^verbatim>\<open>read(double* values, uint32_t num_elements)\<close>: the \<^verbatim>\<open>for\<close> loop over \<open>i\<close>, writing
  \<^verbatim>\<open>values[i]\<close> through \<^verbatim>\<open>read_double\<close>. The subtraction \<^verbatim>\<open>num_elements - 1\<close> is only
  reached with \<^verbatim>\<open>num_elements > 0\<close>.
\<close>

function read_doubles_loop ::
  "(string \<Rightarrow> 'd \<times> nat) \<Rightarrow> string \<Rightarrow> nat \<Rightarrow> nat \<Rightarrow> 'd list \<Rightarrow> ParserState
   \<Rightarrow> (bool \<times> 'd list \<times> ParserState) option" where
  "read_doubles_loop strtod input i num_elements values s =
     (if i < num_elements
      then (case read_double strtod input (values ! i) s of
              None \<Rightarrow> None
            | Some (ok, v, s1) \<Rightarrow>
                (let values1 = values[i := v]
                 in if \<not> ok then Some (False, values1, s1)
                    else if i < num_elements - 1
                    then (case read_comma input s1 of
                            (False, s2) \<Rightarrow> Some (False, values1, s2)
                          | (True, s2) \<Rightarrow>
                              read_doubles_loop strtod input (i + 1) num_elements values1 s2)
                    else read_doubles_loop strtod input (i + 1) num_elements values1 s1))
      else Some (True, values, s))"
  by pat_completeness auto
termination
  by (relation "measure (\<lambda>(strtod, input, i, n, values, s). n - i)") auto

definition read_doubles ::
  "(string \<Rightarrow> 'd \<times> nat) \<Rightarrow> string \<Rightarrow> 'd list \<Rightarrow> nat \<Rightarrow> ParserState
   \<Rightarrow> (bool \<times> 'd list \<times> ParserState) option" where
  "read_doubles strtod input values num_elements s =
     (if num_elements = 0 then Some (True, values, s)
      else read_doubles_loop strtod input 0 num_elements values s)"

definition read_doubles_keyed ::
  "(string \<Rightarrow> 'd \<times> nat) \<Rightarrow> string \<Rightarrow> string \<Rightarrow> 'd list \<Rightarrow> nat \<Rightarrow> ParserState
   \<Rightarrow> (bool \<times> 'd list \<times> ParserState) option" where
  "read_doubles_keyed strtod input key values num_elements s =
     (case and_then (and_then (read_key input key s) (read_equal_sign input))
             (read_opening_bracket input) of
        (False, s1) \<Rightarrow> Some (False, values, s1)
      | (True, s1) \<Rightarrow>
          (case read_doubles strtod input values num_elements s1 of
             None \<Rightarrow> None
           | Some (False, values1, s2) \<Rightarrow> Some (False, values1, s2)
           | Some (True, values1, s2) \<Rightarrow>
               (case read_closing_bracket input s2 of (ok, s3) \<Rightarrow> Some (ok, values1, s3))))"

text \<open>The loop \<^verbatim>\<open>for (i = 0; i < num_elements; ++i) values[i] = 0.0;\<close>.\<close>

function zero_values_loop :: "nat \<Rightarrow> nat \<Rightarrow> ('d::zero) list \<Rightarrow> 'd list" where
  "zero_values_loop i num_elements values =
     (if i < num_elements then zero_values_loop (i + 1) num_elements (values[i := 0])
      else values)"
  by pat_completeness auto
termination
  by (relation "measure (\<lambda>(i, n, values). n - i)") auto

definition try_read_StringView ::
  "string \<Rightarrow> string \<Rightarrow> StringView \<Rightarrow> ParserState \<Rightarrow> bool \<times> StringView \<times> ParserState" where
  "try_read_StringView input key value s =
     (let saved = save_state s
      in case read_StringView input key value s of
           (False, value1, s1) \<Rightarrow> (False, NullView, restore_state saved s1)
         | (True, value1, s1) \<Rightarrow> (True, value1, s1))"

definition try_read_doubles ::
  "(string \<Rightarrow> ('d::zero) \<times> nat) \<Rightarrow> string \<Rightarrow> string \<Rightarrow> 'd list \<Rightarrow> nat \<Rightarrow> ParserState
   \<Rightarrow> (bool \<times> 'd list \<times> ParserState) option" where
  "try_read_doubles strtod input key values num_elements s =
     (let saved = save_state s
      in case read_doubles_keyed strtod input key values num_elements s of
           None \<Rightarrow> None
         | Some (False, values1, s1) \<Rightarrow>
             Some (False, zero_values_loop 0 num_elements values1, restore_state saved s1)
         | Some (True, values1, s1) \<Rightarrow> Some (True, values1, s1))"

declare read_doubles_loop.simps [simp del]
declare zero_values_loop.simps [simp del]

section \<open>Cursor invariant and reachable states\<close>

text \<open>
  The invariant that links the cursor to the buffer: the offset is within the input,
  and the symbol is the byte under the cursor, or the sentinel at end of input.
\<close>

definition cursor_ok :: "string \<Rightarrow> ParserState \<Rightarrow> bool" where
  "cursor_ok input s =
     (offset s \<le> length input
      \<and> symbol s = (if offset s < length input then input ! offset s else CHR 0x00))"

text \<open>
  The states a parser over \<open>input\<close> can be in: the constructed state, and whatever the
  four ways in which \<^verbatim>\<open>parser.h\<close> writes \<^verbatim>\<open>m_state\<close> make of a reachable state
  (\<^verbatim>\<open>advance\<close>, \<^verbatim>\<open>set_error\<close>, \<^verbatim>\<open>restore_state\<close> with a state saved earlier, and
  \<^verbatim>\<open>reset_state\<close>, which gives the constructed state again).
\<close>

inductive reachable :: "string \<Rightarrow> ParserState \<Rightarrow> bool" for input :: string where
  constructed: "reachable input (ParserState_init input)"
| advanced: "reachable input s \<Longrightarrow> reachable input (snd (advance input s))"
| error_set: "reachable input s \<Longrightarrow> reachable input (set_error e s)"
| restored: "reachable input saved \<Longrightarrow> reachable input s
             \<Longrightarrow> reachable input (restore_state saved s)"

text \<open>\<open>k\<close> calls of \<^verbatim>\<open>advance()\<close> in a row.\<close>

fun advance_n :: "string \<Rightarrow> nat \<Rightarrow> ParserState \<Rightarrow> ParserState" where
  "advance_n input 0 s = s"
| "advance_n input (Suc k) s = advance_n input k (snd (advance input s))"

section \<open>The closing quotation mark, after the specification\<close>

text \<open>
  The closing quotation mark as the specification describes it, for comparison with the
  loop of \<^verbatim>\<open>read_string\<close>: in the bytes after the opening quotation mark, the index of
  the first quotation mark that no backslash escapes, where a backslash makes the byte
  after it part of the string whatever it is. There is none if the bytes end first.
\<close>

fun closing_quote :: "string \<Rightarrow> nat option" where
  "closing_quote [] = None"
| "closing_quote [c] = (if c = CHR 0x22 then Some 0 else None)"
| "closing_quote (c # d # cs) =
     (if c = CHR 0x22 then Some 0
      else if c = CHR 0x5C then map_option (\<lambda>n. n + 2) (closing_quote cs)
      else map_option Suc (closing_quote (d # cs)))"

section \<open>Concrete inputs\<close>

text \<open>The three bytes \<^verbatim>\<open>a\<close>, newline, \<^verbatim>\<open>b\<close>.\<close>

definition nl_input :: string where
  "nl_input = [CHR ''a'', CHR 0x0A, CHR ''b'']"

text \<open>A keyed array of three numbers cut off after the second one.\<close>

definition truncated_array_input :: string where
  "truncated_array_input = ''a = [1, 2''"

text \<open>The six bytes quote, \<^verbatim>\<open>a\<close>, backslash, quote, \<^verbatim>\<open>b\<close>, quote.\<close>

definition escaped_quote_input :: string where
  "escaped_quote_input = [CHR 0x22, CHR ''a'', CHR 0x5C, CHR 0x22, CHR ''b'', CHR 0x22]"

text \<open>Numbers of 63 and of 64 digits.\<close>

definition digits_63 :: string where
  "digits_63 = replicate 63 (CHR ''1'')"

definition digits_64 :: string where
  "digits_64 = replicate 64 (CHR ''1'')"

text \<open>
  The scenario input: a line comment, \<^verbatim>\<open>name = "hello"\<close> and \<^verbatim>\<open>count = 3.5\<close>, each
  line ended by a newline (34 bytes), and the states the parser goes through on it.
\<close>

definition scenario_input :: string where
  "scenario_input =
     ''// cfg'' @ [CHR 0x0A] @ ''name = '' @ [CHR 0x22] @ ''hello'' @ [CHR 0x22, CHR 0x0A]
     @ ''count = 3.5'' @ [CHR 0x0A]"

definition scenario_error :: ParserError where
  "scenario_error = \<lparr>error_code = OpeningBraceExpected, error_line = 2, error_column = 1\<rparr>"

definition scenario_after_begin :: ParserState where
  "scenario_after_begin =
     \<lparr>offset = 6, line = 2, column = 1, symbol = CHR 0x0A, error = scenario_error\<rparr>"

definition scenario_after_name :: ParserState where
  "scenario_after_name =
     \<lparr>offset = 21, line = 3, column = 1, symbol = CHR 0x0A, error = scenario_error\<rparr>"

definition scenario_at_number :: ParserState where
  "scenario_at_number =
     \<lparr>offset = 30, line = 3, column = 10, symbol = CHR ''3'', error = scenario_error\<rparr>"

definition scenario_after_count :: ParserState where
  "scenario_after_count =
     \<lparr>offset = 33, line = 4, column = 1, symbol = CHR 0x0A, error = scenario_error\<rparr>"

definition scenario_end :: ParserState where
  "scenario_end =
     \<lparr>offset = 34, line = 4, column = 1, symbol = CHR 0x00, error = scenario_error\<rparr>"

text \<open>A line comment followed by a newline, with and without a byte after it.\<close>

definition comment_line_input :: string where
  "comment_line_input = ''// c'' @ [CHR 0x0A] @ ''x''"

definition comment_only_input :: string where
  "comment_only_input = ''// c'' @ [CHR 0x0A]"

text \<open>Inputs in which a comment comes before a literal, a string or a key.\<close>

definition comment_true_input :: string where
  "comment_true_input = ''/* c */ true''"

definition comment_string_input :: string where
  "comment_string_input = ''// c'' @ [CHR 0x0A, CHR 0x22, CHR ''a'', CHR 0x22]"

definition comment_key_input :: string where
  "comment_key_input = ''/* c */ name = 1''"

definition two_comments_key_input :: string where
  "two_comments_key_input = ''/* a *//* b */ name = 1''"

section \<open>Basic facts about the cursor\<close>

lemma cursor_ok_init: "cursor_ok input (ParserState_init input)"
  by (simp add: cursor_ok_def ParserState_init_def)

lemma cursor_ok_advance: "cursor_ok input s \<Longrightarrow> cursor_ok input (snd (advance input s))"
  by (auto simp: cursor_ok_def advance_def eof_def Let_def)

lemma cursor_ok_set_error [simp]: "cursor_ok input (set_error e s) = cursor_ok input s"
  by (simp add: cursor_ok_def set_error_def)

lemma offset_set_error [simp]: "offset (set_error e s) = offset s"
  by (simp add: set_error_def)

lemma eof_set_error [simp]: "eof input (set_error e s) = eof input s"
  by (simp add: eof_def)

lemma reachable_cursor_ok: "reachable input s \<Longrightarrow> cursor_ok input s"
  by (induction rule: reachable.induct)
     (simp_all add: cursor_ok_init cursor_ok_advance restore_state_def)

lemma reachable_newline_column:
  "reachable input s \<Longrightarrow> offset s < length input \<Longrightarrow> input ! offset s = CHR 0x0A
   \<Longrightarrow> column s = 1"
proof (induction rule: reachable.induct)
  case constructed
  then show ?case by (simp add: ParserState_init_def)
next
  case (advanced s)
  then show ?case by (auto simp: advance_def eof_def Let_def split: if_splits)
next
  case (error_set s e)
  then show ?case by (simp add: set_error_def)
next
  case (restored saved s)
  then show ?case by (simp add: restore_state_def)
qed

lemma fst_advance: "fst (advance input s) = (\<not> eof input s)"
  by (simp add: advance_def Let_def)

lemma advance_not_eof:
  "offset s < length input \<Longrightarrow> advance input s = (True, snd (advance input s))"
  using fst_advance [of input s] by (cases "advance input s") (simp add: eof_def)

lemma symbol_at: "cursor_ok input s \<Longrightarrow> offset s < length input \<Longrightarrow> symbol s = input ! offset s"
  by (simp add: cursor_ok_def)

lemma offset_advance_lt:
  "offset s < length input \<Longrightarrow> offset (snd (advance input s)) = offset s + 1"
  by (simp add: offset_advance eof_def)

lemma advance_n_offset:
  "cursor_ok input s \<Longrightarrow> offset s + k \<le> length input
   \<Longrightarrow> offset (advance_n input k s) = offset s + k \<and> cursor_ok input (advance_n input k s)"
proof (induction k arbitrary: s)
  case 0
  then show ?case by simp
next
  case (Suc k)
  then show ?case by (simp add: cursor_ok_advance offset_advance_lt)
qed

lemma cursor_ok_line_comment_loop:
  "cursor_ok input s \<Longrightarrow> cursor_ok input (line_comment_loop input s)"
proof (induction input s rule: line_comment_loop.induct)
  case (1 input s)
  then show ?case
    by (subst line_comment_loop.simps) (simp add: cursor_ok_advance)
qed

lemma cursor_ok_block_comment_loop:
  "cursor_ok input s \<Longrightarrow> cursor_ok input (snd (block_comment_loop input w s))"
proof (induction input w s rule: block_comment_loop.induct)
  case (1 input wasAsterisk s)
  then show ?case
    by (subst block_comment_loop.simps) (simp add: cursor_ok_advance)
qed

lemma cursor_ok_read_comment:
  "cursor_ok input s \<Longrightarrow> cursor_ok input (snd (read_comment input s))"
  by (simp add: read_comment_def cursor_ok_line_comment_loop cursor_ok_block_comment_loop
      cursor_ok_advance)

lemma cursor_ok_skip:
  "cursor_ok input s \<Longrightarrow> cursor_ok input (snd (skip_comments_and_whitespace input s))"
proof (induction input s rule: skip_comments_and_whitespace.induct)
  case (1 input s)
  have c: "cursor_ok input (snd (read_comment input (snd (advance input s))))"
    using 1 by (simp add: cursor_ok_read_comment cursor_ok_advance)
  show ?case
    using 1 c
    by (subst skip_comments_and_whitespace.simps)
       (auto simp: cursor_ok_advance split: prod.splits bool.splits)
qed

lemma skip_fail_if_eof_ok:
  assumes "cursor_ok input s"
    and "skip_comments_and_whitespace_fail_if_eof input s = (True, s1)"
  shows "cursor_ok input s1 \<and> offset s1 < length input"
proof -
  have "cursor_ok input (snd (skip_comments_and_whitespace input s))"
    using assms(1) by (rule cursor_ok_skip)
  with assms(2) show ?thesis
    by (auto simp: skip_comments_and_whitespace_fail_if_eof_def eof_def
        split: prod.splits bool.splits if_splits)
qed

lemma take_drop_nth:
  assumes "take n (drop k xs) = ys" and "length ys = n" and "0 < n"
  shows "k + n \<le> length xs \<and> (\<forall>i<n. xs ! (k + i) = ys ! i)"
proof -
  have "length (take n (drop k xs)) = n"
    using assms(1,2) by simp
  then have le: "k + n \<le> length xs"
    using assms(3) by (simp add: min_def split: if_splits)
  have "\<forall>i<n. xs ! (k + i) = ys ! i"
  proof (intro allI impI)
    fix i assume "i < n"
    then have "ys ! i = drop k xs ! i" using assms(1) by (metis nth_take)
    also have "\<dots> = xs ! (k + i)" using le \<open>i < n\<close> by simp
    finally show "xs ! (k + i) = ys ! i" by simp
  qed
  with le show ?thesis by simp
qed

lemma zero_values_loop_length [simp]:
  "length (zero_values_loop i n vs) = length vs"
proof (induction i n vs rule: zero_values_loop.induct)
  case (1 i n vs)
  then show ?case by (subst zero_values_loop.simps) simp
qed

lemma zero_values_loop_nth:
  "j < length vs \<Longrightarrow>
   zero_values_loop i n vs ! j = (if i \<le> j \<and> j < n then 0 else vs ! j)"
proof (induction i n vs rule: zero_values_loop.induct)
  case (1 i n vs)
  show ?case
  proof (cases "i < n")
    case True
    with 1 show ?thesis
      by (subst zero_values_loop.simps) (auto simp: nth_list_update)
  next
    case False
    then show ?thesis by (subst zero_values_loop.simps) auto
  qed
qed

lemma read_doubles_loop_length:
  "read_doubles_loop strtod input i n vs s = Some (ok, vs', s')
   \<Longrightarrow> length vs' = length vs"
proof (induction "n - i" arbitrary: i vs s)
  case 0
  then show ?case by (subst (asm) read_doubles_loop.simps) simp
next
  case (Suc k)
  have IH: "read_doubles_loop strtod input (Suc i) n vs1 s1 = Some (ok, vs', s')
            \<Longrightarrow> length vs' = length vs1" for vs1 s1
    using Suc.hyps(1) [of "Suc i" vs1 s1] Suc.hyps(2) by simp
  from Suc.prems show ?case
    by (subst (asm) read_doubles_loop.simps)
       (auto split: if_splits option.splits prod.splits bool.splits simp: Let_def dest!: IH)
qed

lemma read_doubles_keyed_length:
  "read_doubles_keyed strtod input key vs n s = Some (ok, vs', s')
   \<Longrightarrow> length vs' = length vs"
  by (auto simp: read_doubles_keyed_def read_doubles_def
      split: if_splits option.splits prod.splits bool.splits
      dest: read_doubles_loop_length)

lemma closing_quote_index:
  "closing_quote cs = Some n \<Longrightarrow> n < length cs \<and> cs ! n = CHR 0x22"
  by (induction cs arbitrary: n rule: closing_quote.induct) (auto split: if_splits)

lemma closing_quote_Cons:
  "closing_quote (c # cs) =
     (if c = CHR 0x22 then Some 0
      else if c = CHR 0x5C
      then (case cs of [] \<Rightarrow> None | d # cs' \<Rightarrow> map_option (\<lambda>n. n + 2) (closing_quote cs'))
      else map_option Suc (closing_quote cs))"
  by (cases cs) auto

lemma size_t_sub_one: "0 < off \<Longrightarrow> off < 2 ^ 64 \<Longrightarrow> size_t_sub off 1 = off - 1"
proof -
  assume a: "0 < off" "off < 2 ^ 64"
  then have "int off - 1 < 2 ^ 64" "0 \<le> int off - 1"
    by (simp_all add: nat_less_iff [symmetric] less_imp_diff_less)
  then have "(int off - 1) mod 2 ^ 64 = int off - 1" by simp
  then show ?thesis using a by (simp add: size_t_sub_def)
qed

lemma size_t_slice_length:
  assumes "start \<le> off" and "0 < off" and "off < 2 ^ 64"
  shows "size_t_add (size_t_sub (size_t_sub off 1) start) 1 = off - start"
proof -
  have s1: "size_t_sub off 1 = off - 1"
    by (rule size_t_sub_one [OF assms(2,3)])
  show ?thesis
  proof (cases "start = off")
    case True
    have "int (off - 1) - int off = - 1" using assms(2) by simp
    then have "(int (off - 1) - int off) mod 2 ^ 64 = 2 ^ 64 - 1"
      by (simp add: zmod_minus1)
    then have "size_t_sub (off - 1) off = 2 ^ 64 - 1"
      by (simp add: size_t_sub_def)
    then have "size_t_add (size_t_sub (off - 1) off) 1 = 0"
      by (simp add: size_t_add_def)
    then show ?thesis unfolding s1 using True by simp
  next
    case False
    with assms have lt: "start < off" by simp
    have b: "0 \<le> int (off - 1) - int start" "int (off - 1) - int start < 2 ^ 64"
      using lt assms(3) by (simp_all add: nat_less_iff [symmetric])
    then have "(int (off - 1) - int start) mod 2 ^ 64 = int (off - 1) - int start" by simp
    then have s: "size_t_sub (off - 1) start = off - 1 - start"
      using lt by (simp add: size_t_sub_def)
    have c: "int (off - 1 - start) + int 1 = int (off - start)" using lt by simp
    have "int (off - start) < 2 ^ 64" using assms(3) by (simp add: nat_less_iff [symmetric])
    then have "(int (off - 1 - start) + int 1) mod 2 ^ 64 = int (off - start)"
      unfolding c by simp
    then have "size_t_add (off - 1 - start) 1 = off - start"
      unfolding size_t_add_def by simp
    then show ?thesis unfolding s1 s .
  qed
qed

lemma advance_at_eof: "eof input s \<Longrightarrow> snd (advance input s) = s"
  by (simp add: advance_def)

lemma advance_n_Suc_front:
  "offset s < length input
   \<Longrightarrow> advance_n input (length input - offset s) s
       = advance_n input (length input - offset (snd (advance input s))) (snd (advance input s))"
proof -
  assume a: "offset s < length input"
  then have "length input - offset s = Suc (length input - offset (snd (advance input s)))"
    by (simp add: offset_advance_lt)
  then show ?thesis by simp
qed

lemma read_string_loop_spec:
  assumes "cursor_ok input s"
  shows "read_string_loop input s =
     (case closing_quote (drop (offset s) input) of
        None \<Rightarrow> (None, set_error InputTruncated (advance_n input (length input - offset s) s))
      | Some n \<Rightarrow> (Some (size_t_sub (offset s + n) 1), advance_n input (n + 1) s))"
  using assms
proof (induction "length input - offset s" arbitrary: s rule: less_induct)
  case less
  note ok = less.prems
  show ?case
  proof (cases "eof input s")
    case True
    then have "drop (offset s) input = []" by (simp add: eof_def)
    with True show ?thesis
      by (subst read_string_loop.simps) (simp add: eof_def)
  next
    case False
    then have lt: "offset s < length input" by (simp add: eof_def)
    have sym: "symbol s = input ! offset s" using ok lt by (rule symbol_at)
    have dr: "drop (offset s) input = input ! offset s # drop (Suc (offset s)) input"
      using lt by (simp add: Cons_nth_drop_Suc)
    let ?s1 = "snd (advance input s)"
    have ok1: "cursor_ok input ?s1" using ok by (rule cursor_ok_advance)
    have o1: "offset ?s1 = offset s + 1" using lt by (rule offset_advance_lt)
    have front: "advance_n input (length input - offset s) s
                 = advance_n input (length input - offset ?s1) ?s1"
      using lt by (rule advance_n_Suc_front)
    have IH1: "read_string_loop input ?s1 =
       (case closing_quote (drop (offset ?s1) input) of
          None \<Rightarrow> (None, set_error InputTruncated
                    (advance_n input (length input - offset ?s1) ?s1))
        | Some n \<Rightarrow> (Some (size_t_sub (offset ?s1 + n) 1), advance_n input (n + 1) ?s1))"
      using less.hyps [of ?s1] ok1 o1 lt by simp
    consider (quote) "input ! offset s = CHR 0x22"
      | (backslash) "input ! offset s = CHR 0x5C"
      | (other) "input ! offset s \<noteq> CHR 0x22" "input ! offset s \<noteq> CHR 0x5C"
      by blast
    then show ?thesis
    proof cases
      case quote
      then show ?thesis
        using False sym
        by (subst read_string_loop.simps) (simp add: dr closing_quote_Cons)
    next
      case other
      have "read_string_loop input s = read_string_loop input ?s1"
        using False sym other by (subst read_string_loop.simps) simp
      then show ?thesis
        using other
        by (simp add: IH1 dr closing_quote_Cons o1 front split: option.splits)
    next
      case backslash
      have step: "read_string_loop input s = read_string_loop input (snd (advance input ?s1))"
        using False sym backslash by (subst read_string_loop.simps) simp
      show ?thesis
      proof (cases "eof input ?s1")
        case True
        then have e: "length input = Suc (offset s)" using o1 lt by (simp add: eof_def)
        have "read_string_loop input (snd (advance input ?s1))
              = (None, set_error InputTruncated ?s1)"
          using True by (subst read_string_loop.simps) (simp add: advance_at_eof)
        moreover have "advance_n input (length input - offset ?s1) ?s1 = ?s1"
          using True by (simp add: eof_def)
        ultimately show ?thesis
          using backslash by (simp add: step dr e closing_quote_Cons front)
      next
        case False
        then have lt1: "offset ?s1 < length input" by (simp add: eof_def)
        let ?s2 = "snd (advance input ?s1)"
        have ok2: "cursor_ok input ?s2" using ok1 by (rule cursor_ok_advance)
        have o2: "offset ?s2 = offset s + 2" using lt1 o1 by (simp add: offset_advance_lt)
        have dr1: "drop (Suc (offset s)) input
                   = input ! Suc (offset s) # drop (Suc (Suc (offset s))) input"
          using lt1 o1 by (simp add: Cons_nth_drop_Suc)
        have front1: "advance_n input (length input - offset ?s1) ?s1
                 = advance_n input (length input - offset ?s2) ?s2"
          using lt1 by (rule advance_n_Suc_front)
        have IH2: "read_string_loop input ?s2 =
           (case closing_quote (drop (offset ?s2) input) of
              None \<Rightarrow> (None, set_error InputTruncated
                        (advance_n input (length input - offset ?s2) ?s2))
            | Some n \<Rightarrow> (Some (size_t_sub (offset ?s2 + n) 1), advance_n input (n + 1) ?s2))"
          using less.hyps [of ?s2] ok2 o2 lt by simp
        show ?thesis
          using backslash
          by (simp add: step IH2 dr dr1 closing_quote_Cons o2 front front1 add.assoc
              split: option.splits)
      qed
    qed
  qed
qed

text \<open>
  From a state that satisfies the cursor invariant the digit loop returns, and so does
  \<^verbatim>\<open>read_double\<close>: at end of input the symbol is the sentinel, which is no digit.
\<close>

lemma isdigit_not_nul: "isdigit c \<Longrightarrow> c \<noteq> CHR 0x00"
  by (auto simp: isdigit_def)

lemma digit_not_eof: "cursor_ok input s \<Longrightarrow> symbol s \<noteq> CHR 0x00 \<Longrightarrow> offset s < length input"
  by (auto simp: cursor_ok_def split: if_splits)

lemma digits_loop_returns:
  "cursor_ok input s \<Longrightarrow>
   \<exists>s'. digits_loop input s = Some s' \<and> cursor_ok input s' \<and> offset s \<le> offset s'
        \<and> (isdigit (symbol s) \<longrightarrow> offset s < offset s')"
proof (induction "length input - offset s" arbitrary: s rule: less_induct)
  case less
  show ?case
  proof (cases "isdigit (symbol s)")
    case False
    then show ?thesis using less.prems by (subst digits_loop.simps) simp
  next
    case True
    let ?s1 = "snd (advance input s)"
    have lt: "offset s < length input"
      using less.prems True by (intro digit_not_eof isdigit_not_nul)
    have o1: "offset ?s1 = offset s + 1" using lt by (rule offset_advance_lt)
    have ok1: "cursor_ok input ?s1" using less.prems by (rule cursor_ok_advance)
    have "length input - offset ?s1 < length input - offset s" using o1 lt by simp
    from less.hyps [OF this ok1]
    obtain s' where r: "digits_loop input ?s1 = Some s'" "cursor_ok input s'"
      "offset ?s1 \<le> offset s'" by blast
    have "digits_loop input s = digits_loop input ?s1"
      using True by (subst digits_loop.simps) simp
    with r o1 show ?thesis by simp
  qed
qed

lemma read_double_integer_part_returns:
  assumes "cursor_ok input s"
  shows "\<exists>ok s'. read_double_integer_part input s = Some (ok, s') \<and> cursor_ok input s'
           \<and> offset s \<le> offset s' \<and> (ok \<longrightarrow> offset s < offset s')"
proof -
  from digits_loop_returns [OF assms]
  obtain s' where d: "digits_loop input s = Some s'" "cursor_ok input s'"
    "offset s \<le> offset s'" "isdigit (symbol s) \<longrightarrow> offset s < offset s'" by blast
  show ?thesis
  proof (cases "symbol s = CHR ''0''")
    case True
    then have "offset s < length input" using assms by (intro digit_not_eof) simp_all
    then show ?thesis
      using True assms
      by (auto simp: read_double_integer_part_def cursor_ok_advance offset_advance_lt)
  next
    case False
    then show ?thesis
      using d assms by (auto simp: read_double_integer_part_def)
  qed
qed

lemma read_double_fraction_part_returns:
  assumes "cursor_ok input s"
  shows "\<exists>s'. read_double_fraction_part input s = Some s' \<and> cursor_ok input s'
           \<and> offset s \<le> offset s'"
proof -
  from digits_loop_returns [OF cursor_ok_advance [OF assms]]
  obtain s' where "digits_loop input (snd (advance input s)) = Some s'" "cursor_ok input s'"
    "offset (snd (advance input s)) \<le> offset s'" by blast
  then show ?thesis
    using assms offset_advance_le [of s input]
    by (auto simp: read_double_fraction_part_def)
qed

lemma read_double_exponent_part_returns:
  assumes "cursor_ok input s"
  shows "\<exists>ok s'. read_double_exponent_part input s = Some (ok, s') \<and> cursor_ok input s'
           \<and> offset s \<le> offset s'"
proof -
  let ?s1 = "snd (advance input s)"
  let ?s2 = "snd (advance input ?s1)"
  have ok1: "cursor_ok input ?s1" using assms by (rule cursor_ok_advance)
  have ok2: "cursor_ok input ?s2" using ok1 by (rule cursor_ok_advance)
  have le1: "offset s \<le> offset ?s1" by (rule offset_advance_le)
  have le2: "offset s \<le> offset ?s2" using le1 offset_advance_le [of ?s1 input] by simp
  from digits_loop_returns [OF ok1]
  obtain a where a: "digits_loop input ?s1 = Some a" "cursor_ok input a"
    "offset ?s1 \<le> offset a" by blast
  from digits_loop_returns [OF ok2]
  obtain b where b: "digits_loop input ?s2 = Some b" "cursor_ok input b"
    "offset ?s2 \<le> offset b" by blast
  show ?thesis
    using assms ok1 a b le1 le2
    by (auto simp: read_double_exponent_part_def Let_def)
qed

lemma read_double_lexeme_returns:
  assumes "cursor_ok input s"
  shows "\<exists>ok s'. read_double_lexeme input s = Some (ok, s') \<and> cursor_ok input s'
           \<and> offset s \<le> offset s' \<and> (ok \<longrightarrow> offset s < offset s')"
proof -
  define s2 where "s2 = (if symbol s = CHR ''-'' then snd (advance input s) else s)"
  have ok2: "cursor_ok input s2" and le2: "offset s \<le> offset s2"
    using assms by (simp_all add: s2_def cursor_ok_advance offset_advance_le)
  from read_double_integer_part_returns [OF ok2]
  obtain ok3 s3 where i: "read_double_integer_part input s2 = Some (ok3, s3)"
    "cursor_ok input s3" "offset s2 \<le> offset s3" "ok3 \<longrightarrow> offset s2 < offset s3" by blast
  from read_double_fraction_part_returns [OF i(2)]
  obtain s4 where f: "read_double_fraction_part input s3 = Some s4"
    "cursor_ok input s4" "offset s3 \<le> offset s4" by blast
  from read_double_exponent_part_returns [OF f(2)]
  obtain ok5 s5 where e: "read_double_exponent_part input s4 = Some (ok5, s5)"
    "cursor_ok input s5" "offset s4 \<le> offset s5" by blast
  show ?thesis
  proof (cases ok3)
    case False
    then show ?thesis
      using i le2 by (auto simp: read_double_lexeme_def s2_def [symmetric])
  next
    case True
    then show ?thesis
      using i f e le2 by (auto simp: read_double_lexeme_def s2_def [symmetric])
  qed
qed

lemma read_double_returns:
  assumes "cursor_ok input s"
  shows "read_double strtod input value s \<noteq> None"
proof (cases "skip_comments_and_whitespace_fail_if_eof input s")
  case (Pair ok s1)
  show ?thesis
  proof (cases ok)
    case False
    then show ?thesis using Pair by (auto simp: read_double_def)
  next
    case True
    then have "cursor_ok input s1" using skip_fail_if_eof_ok [OF assms] Pair by simp
    from read_double_lexeme_returns [OF this]
    obtain ok2 s2 where "read_double_lexeme input s1 = Some (ok2, s2)" by blast
    then show ?thesis using Pair True by (cases ok2) (simp_all add: read_double_def)
  qed
qed

text \<open>The steps of the scenario, each evaluated on the model.\<close>

lemma scenario_begin:
  "object_begins scenario_input (ParserState_init scenario_input) = (False, scenario_after_begin)"
  by code_simp

lemma scenario_name:
  "read_StringView scenario_input ''name'' NullView scenario_after_begin
   = (True, StringView 15 5, scenario_after_name)"
  by code_simp

lemma scenario_hello: "view_bytes scenario_input (StringView 15 5) = ''hello''"
  by code_simp

lemma scenario_count_key:
  "and_then (read_key scenario_input ''count'' scenario_after_name)
     (read_equal_sign scenario_input)
   = (True, \<lparr>offset = 29, line = 3, column = 9, symbol = CHR '' '', error = scenario_error\<rparr>)"
  by code_simp

lemma scenario_number_skip:
  "skip_comments_and_whitespace_fail_if_eof scenario_input
     \<lparr>offset = 29, line = 3, column = 9, symbol = CHR '' '', error = scenario_error\<rparr>
   = (True, scenario_at_number)"
  by code_simp

lemma scenario_number_lexeme:
  "read_double_lexeme scenario_input scenario_at_number = Some (True, scenario_after_count)"
  by code_simp

lemma scenario_number_slice:
  "size_t_add (size_t_sub (size_t_sub (offset scenario_after_count) 1)
      (offset scenario_at_number)) 1 = 3
   \<and> take 3 (drop (offset scenario_at_number) scenario_input) = ''3.5''"
  by code_simp

lemma scenario_rest:
  "offset scenario_after_count = 33 \<and> length scenario_input = 34
   \<and> symbol scenario_after_count = CHR 0x0A
   \<and> \<not> eof scenario_input scenario_after_count
   \<and> remainder_is_comments_and_whitespace scenario_input scenario_after_count
       = (True, scenario_end)
   \<and> eof scenario_input scenario_end"
  by code_simp

text \<open>
  Over whitespace alone the skip does consume the whole run: from a cursor followed by
  \<open>k\<close> whitespace bytes and then a byte that is neither whitespace nor a slash, it stops
  on that byte.
\<close>

lemma skip_whitespace_run:
  assumes "cursor_ok input s"
    and "offset s + k < length input"
    and "\<forall>i<k. isspace (input ! (offset s + i))"
    and "\<not> isspace (input ! (offset s + k))"
    and "input ! (offset s + k) \<noteq> CHR ''/''"
  shows "skip_comments_and_whitespace_fail_if_eof input s = (True, advance_n input k s)"
  using assms
proof (induction k arbitrary: s)
  case 0
  then have "symbol s = input ! offset s" by (simp add: symbol_at)
  with 0 show ?case
    by (subst skip_comments_and_whitespace_fail_if_eof_def,
        subst skip_comments_and_whitespace.simps)
       (simp add: eof_def)
next
  case (Suc k)
  let ?s1 = "snd (advance input s)"
  have lt: "offset s < length input" using Suc.prems(2) by simp
  have sym: "symbol s = input ! offset s" using Suc.prems(1) lt by (rule symbol_at)
  have sp: "isspace (symbol s)" using Suc.prems(3) sym by auto
  have o1: "offset ?s1 = offset s + 1" using lt by (rule offset_advance_lt)
  have ok1: "cursor_ok input ?s1" using Suc.prems(1) by (rule cursor_ok_advance)
  have ws: "\<forall>i<k. isspace (input ! (offset ?s1 + i))"
  proof (intro allI impI)
    fix i assume "i < k"
    then have "isspace (input ! (offset s + Suc i))" using Suc.prems(3) by auto
    then show "isspace (input ! (offset ?s1 + i))" by (simp add: o1)
  qed
  have IH: "skip_comments_and_whitespace_fail_if_eof input ?s1 = (True, advance_n input k ?s1)"
    using Suc.IH [OF ok1 _ ws] Suc.prems(2,4,5) by (simp add: o1)
  have "skip_comments_and_whitespace input s = skip_comments_and_whitespace input ?s1"
    using lt sp by (subst skip_comments_and_whitespace.simps) (simp add: eof_def)
  then have "skip_comments_and_whitespace_fail_if_eof input s
             = skip_comments_and_whitespace_fail_if_eof input ?s1"
    by (simp add: skip_comments_and_whitespace_fail_if_eof_def)
  with IH show ?case by simp
qed

lemma advance_n_add:
  "advance_n input (a + b) s = advance_n input b (advance_n input a s)"
  by (induction a arbitrary: s) simp_all

text \<open>
  The key read on \<^verbatim>\<open>/* c */ name = 1\<close>, step by step: the skip stops on the space after
  the comment, the unquoted key read there is empty (its length is computed with a
  wrap of \<^verbatim>\<open>size_t\<close>), and the empty key is not the requested name.
\<close>

lemma comment_key_skip:
  "skip_comments_and_whitespace_fail_if_eof comment_key_input
     (ParserState_init comment_key_input)
   = (True, \<lparr>offset = 7, line = 1, column = 8, symbol = CHR '' '',
             error = \<lparr>error_code = NoError, error_line = 0, error_column = 0\<rparr>\<rparr>)"
  by code_simp

lemma comment_key_loop:
  "read_unquoted_key_loop comment_key_input 7
     \<lparr>offset = 7, line = 1, column = 8, symbol = CHR '' '',
      error = \<lparr>error_code = NoError, error_line = 0, error_column = 0\<rparr>\<rparr>
   = (Some 6, \<lparr>offset = 8, line = 1, column = 9, symbol = CHR ''n'',
               error = \<lparr>error_code = NoError, error_line = 0, error_column = 0\<rparr>\<rparr>)"
  by code_simp

lemma comment_key_empty_length: "size_t_add (size_t_sub 6 7) (Suc 0) = 0"
  by (simp add: size_t_add_def size_t_sub_def)

lemma comment_key_facts:
  "\<not> eof comment_key_input
       \<lparr>offset = 7, line = 1, column = 8, symbol = CHR '' '',
        error = \<lparr>error_code = NoError, error_line = 0, error_column = 0\<rparr>\<rparr>
   \<and> view_differs comment_key_input (StringView 7 0) ''name''"
  by code_simp

lemma comment_key_rejected:
  "read_key comment_key_input ''name'' (ParserState_init comment_key_input)
   = (False, \<lparr>offset = 7, line = 1, column = 8, symbol = CHR '' '',
              error = \<lparr>error_code = IncorrectKey, error_line = 1, error_column = 8\<rparr>\<rparr>)"
  by (simp add: read_key_def comment_key_skip read_key_token_def read_unquoted_key_def
      comment_key_loop comment_key_empty_length comment_key_facts
      save_state_def restore_state_def set_error_def)

section \<open>Save and restore\<close>

text \<open>
  C7: restoring a saved state, whatever happened to the state in between, gives back
  the saved state in every field: offset, line, column, symbol and the embedded error.
\<close>

theorem restore_save_roundtrip:
  "restore_state (save_state s) s' = s
   \<and> offset (restore_state (save_state s) s') = offset s
   \<and> line (restore_state (save_state s) s') = line s
   \<and> column (restore_state (save_state s) s') = column s
   \<and> symbol (restore_state (save_state s) s') = symbol s
   \<and> error (restore_state (save_state s) s') = error s"
  by (simp add: restore_state_def save_state_def)

section \<open>End of input\<close>

text \<open>
  C8: in every reachable state \<^verbatim>\<open>eof()\<close> holds exactly when the offset equals the
  length of the input, and \<^verbatim>\<open>advance()\<close> at end of input returns false and leaves
  the whole state (offset, line, column, symbol, error) as it was.
\<close>

theorem eof_exact_and_advance_noop:
  assumes "reachable input s"
  shows "(eof input s \<longleftrightarrow> offset s = length input)
         \<and> (eof input s \<longrightarrow> advance input s = (False, s))"
proof -
  from assms have "offset s \<le> length input"
    by (simp add: reachable_cursor_ok [unfolded cursor_ok_def])
  then show ?thesis by (auto simp: eof_def advance_def)
qed

theorem eof_exact_and_advance_noop_witness:
  "reachable ''a'' (snd (advance ''a'' (ParserState_init ''a'')))
   \<and> eof ''a'' (snd (advance ''a'' (ParserState_init ''a'')))
   \<and> offset (snd (advance ''a'' (ParserState_init ''a''))) = length ''a''
   \<and> advance ''a'' (snd (advance ''a'' (ParserState_init ''a'')))
       = (False, snd (advance ''a'' (ParserState_init ''a'')))"
proof -
  have r: "reachable ''a'' (snd (advance ''a'' (ParserState_init ''a'')))"
    by (intro reachable.intros)
  have e: "eof ''a'' (snd (advance ''a'' (ParserState_init ''a'')))"
    by code_simp
  from eof_exact_and_advance_noop [OF r] r e show ?thesis by blast
qed

section \<open>Line and column bookkeeping\<close>

text \<open>
  C9: the bookkeeping follows the byte the cursor lands on. When \<^verbatim>\<open>advance()\<close> moves
  onto a newline, the line is incremented and the column becomes 1 with the cursor on
  the newline itself; from a cursor on a newline, the next \<^verbatim>\<open>advance()\<close> onto a byte
  that is not a newline leaves the line as it is and makes the column 2, which is what
  \<^verbatim>\<open>get_position\<close> reports there and what \<^verbatim>\<open>set_error\<close> records there.
\<close>

theorem newline_column_bookkeeping:
  assumes "reachable input s"
  shows "(offset s + 1 < length input \<and> input ! (offset s + 1) = CHR 0x0A \<longrightarrow>
            offset (snd (advance input s)) = offset s + 1
            \<and> symbol (snd (advance input s)) = CHR 0x0A
            \<and> line (snd (advance input s)) = line s + 1
            \<and> column (snd (advance input s)) = 1)
       \<and> (offset s + 1 < length input \<and> symbol s = CHR 0x0A
            \<and> input ! (offset s + 1) \<noteq> CHR 0x0A \<longrightarrow>
            offset (snd (advance input s)) = offset s + 1
            \<and> symbol (snd (advance input s)) = input ! (offset s + 1)
            \<and> get_position (snd (advance input s)) = (line s, 2)
            \<and> error_column (error (set_error e (snd (advance input s)))) = 2)"
proof -
  have ok: "cursor_ok input s" using assms by (rule reachable_cursor_ok)
  have col: "offset s + 1 < length input \<Longrightarrow> symbol s = CHR 0x0A \<Longrightarrow> column s = 1"
    using reachable_newline_column [OF assms] ok by (simp add: cursor_ok_def)
  show ?thesis
    using col by (auto simp: advance_def eof_def Let_def get_position_def set_error_def)
qed

theorem newline_column_bookkeeping_witness:
  "reachable nl_input (snd (advance nl_input (ParserState_init nl_input)))
   \<and> symbol (snd (advance nl_input (ParserState_init nl_input))) = CHR 0x0A
   \<and> column (snd (advance nl_input (ParserState_init nl_input))) = 1
   \<and> line (snd (advance nl_input (ParserState_init nl_input))) = 2
   \<and> symbol (advance_n nl_input 2 (ParserState_init nl_input)) = CHR ''b''
   \<and> get_position (advance_n nl_input 2 (ParserState_init nl_input)) = (2, 2)
   \<and> error_column (error (set_error KeyExpected
         (advance_n nl_input 2 (ParserState_init nl_input)))) = 2"
proof -
  have r: "reachable nl_input (snd (advance nl_input (ParserState_init nl_input)))"
    by (intro reachable.intros)
  have h: "offset (snd (advance nl_input (ParserState_init nl_input))) + 1 < length nl_input
           \<and> symbol (snd (advance nl_input (ParserState_init nl_input))) = CHR 0x0A
           \<and> nl_input ! (offset (snd (advance nl_input (ParserState_init nl_input))) + 1)
               \<noteq> CHR 0x0A"
    by code_simp
  have l: "line (snd (advance nl_input (ParserState_init nl_input))) = 2
           \<and> column (snd (advance nl_input (ParserState_init nl_input))) = 1
           \<and> nl_input ! (offset (snd (advance nl_input (ParserState_init nl_input))) + 1)
               = CHR ''b''"
    by code_simp
  from newline_column_bookkeeping [OF r, of KeyExpected] r h l show ?thesis
    by (simp add: eval_nat_numeral)
qed

section \<open>Boolean literals\<close>

text \<open>
  What \<^verbatim>\<open>read_bool\<close> does from the position where its own skip of whitespace and
  comments leaves the cursor: if the next four bytes there are \<^verbatim>\<open>true\<close> (the next five
  \<^verbatim>\<open>false\<close>), it succeeds with the value true (false) and the cursor is exactly four
  (five) calls of \<^verbatim>\<open>advance()\<close> further, on the byte right after the literal, whatever
  that byte is.
\<close>

lemma read_bool_after_skip:
  assumes ok: "cursor_ok input s"
    and skip: "skip_comments_and_whitespace_fail_if_eof input s = (True, s1)"
  shows "(take 4 (drop (offset s1) input) = ''true'' \<longrightarrow>
            read_bool input value s = (True, True, advance_n input 4 s1)
            \<and> offset (advance_n input 4 s1) = offset s1 + 4
            \<and> cursor_ok input (advance_n input 4 s1))
       \<and> (take 5 (drop (offset s1) input) = ''false'' \<longrightarrow>
            read_bool input value s = (True, False, advance_n input 5 s1)
            \<and> offset (advance_n input 5 s1) = offset s1 + 5
            \<and> cursor_ok input (advance_n input 5 s1))"
proof -
  have ok1: "cursor_ok input s1" using skip_fail_if_eof_ok [OF ok skip] by simp
  define a where "a k = advance_n input k s1" for k
  have a0: "a 0 = s1" by (simp add: a_def)
  have aS: "a (Suc k) = snd (advance input (a k))" for k
    unfolding a_def
    by (induction k arbitrary: s1) simp_all
  have step: "offset s1 + k < length input \<Longrightarrow> input ! (offset s1 + k) = c
              \<Longrightarrow> symbol (a k) = c \<and> advance input (a k) = (True, a (Suc k))" for k c
    using advance_n_offset [OF ok1, of k] symbol_at [of input "a k"]
      advance_not_eof [of "a k" input]
    by (simp add: a_def [symmetric] aS)
  have t: "read_bool input value s = (True, True, advance_n input 4 s1)
            \<and> offset (advance_n input 4 s1) = offset s1 + 4
            \<and> cursor_ok input (advance_n input 4 s1)"
    if h: "take 4 (drop (offset s1) input) = ''true''"
  proof -
    from take_drop_nth [OF h] have le: "offset s1 + 4 \<le> length input"
      and nth: "\<forall>i<4. input ! (offset s1 + i) = ''true'' ! i" by simp_all
    have c0: "input ! (offset s1 + 0) = CHR ''t''" using nth [rule_format, of 0] by simp
    have c1: "input ! (offset s1 + 1) = CHR ''r''" using nth [rule_format, of 1] by simp
    have c2: "input ! (offset s1 + 2) = CHR ''u''" using nth [rule_format, of 2] by simp
    have c3: "input ! (offset s1 + 3) = CHR ''e''" using nth [rule_format, of 3] by simp
    have s0: "symbol (a 0) = CHR ''t'' \<and> advance input (a 0) = (True, a (Suc 0))"
      using step [OF _ c0] le by simp
    have s1: "symbol (a 1) = CHR ''r'' \<and> advance input (a 1) = (True, a (Suc 1))"
      using step [OF _ c1] le by simp
    have s2: "symbol (a 2) = CHR ''u'' \<and> advance input (a 2) = (True, a (Suc 2))"
      using step [OF _ c2] le by simp
    have s3: "symbol (a 3) = CHR ''e'' \<and> advance input (a 3) = (True, a (Suc 3))"
      using step [OF _ c3] le by simp
    have "read_bool input value s = (True, True, a 4)"
      using s0 s1 s2 s3
      by (simp add: read_bool_def skip and_then_def symbol_is_and_advance_def a0
          eval_nat_numeral)
    then show ?thesis
      using advance_n_offset [OF ok1 le] by (simp add: a_def)
  qed
  have f: "read_bool input value s = (True, False, advance_n input 5 s1)
            \<and> offset (advance_n input 5 s1) = offset s1 + 5
            \<and> cursor_ok input (advance_n input 5 s1)"
    if h: "take 5 (drop (offset s1) input) = ''false''"
  proof -
    from take_drop_nth [OF h] have le: "offset s1 + 5 \<le> length input"
      and nth: "\<forall>i<5. input ! (offset s1 + i) = ''false'' ! i" by simp_all
    have c0: "input ! (offset s1 + 0) = CHR ''f''" using nth [rule_format, of 0] by simp
    have c1: "input ! (offset s1 + 1) = CHR ''a''" using nth [rule_format, of 1] by simp
    have c2: "input ! (offset s1 + 2) = CHR ''l''" using nth [rule_format, of 2] by simp
    have c3: "input ! (offset s1 + 3) = CHR ''s''" using nth [rule_format, of 3] by simp
    have c4: "input ! (offset s1 + 4) = CHR ''e''" using nth [rule_format, of 4] by simp
    have s0: "symbol (a 0) = CHR ''f'' \<and> advance input (a 0) = (True, a (Suc 0))"
      using step [OF _ c0] le by simp
    have s1: "symbol (a 1) = CHR ''a'' \<and> advance input (a 1) = (True, a (Suc 1))"
      using step [OF _ c1] le by simp
    have s2: "symbol (a 2) = CHR ''l'' \<and> advance input (a 2) = (True, a (Suc 2))"
      using step [OF _ c2] le by simp
    have s3: "symbol (a 3) = CHR ''s'' \<and> advance input (a 3) = (True, a (Suc 3))"
      using step [OF _ c3] le by simp
    have s4: "symbol (a 4) = CHR ''e'' \<and> advance input (a 4) = (True, a (Suc 4))"
      using step [OF _ c4] le by simp
    have "read_bool input value s = (True, False, a 5)"
      using s0 s1 s2 s3 s4
      by (simp add: read_bool_def skip and_then_def symbol_is_and_advance_def a0
          eval_nat_numeral)
    then show ?thesis
      using advance_n_offset [OF ok1 le] by (simp add: a_def)
  qed
  from t f show ?thesis by blast
qed

lemma read_bool_truest_example:
  "cursor_ok ''truest'' (ParserState_init ''truest'')
   \<and> skip_comments_and_whitespace_fail_if_eof ''truest'' (ParserState_init ''truest'')
       = (True, ParserState_init ''truest'')
   \<and> take 4 (drop (offset (ParserState_init ''truest'')) ''truest'') = ''true''
   \<and> read_bool ''truest'' False (ParserState_init ''truest'')
       = (True, True, advance_n ''truest'' 4 (ParserState_init ''truest''))
   \<and> offset (advance_n ''truest'' 4 (ParserState_init ''truest'')) = 4
   \<and> symbol (advance_n ''truest'' 4 (ParserState_init ''truest'')) = CHR ''s''"
proof -
  have h1: "cursor_ok ''truest'' (ParserState_init ''truest'')"
    by (rule cursor_ok_init)
  have h2: "skip_comments_and_whitespace_fail_if_eof ''truest'' (ParserState_init ''truest'')
            = (True, ParserState_init ''truest'')"
    by code_simp
  have h3: "take 4 (drop (offset (ParserState_init ''truest'')) ''truest'') = ''true''"
    by code_simp
  have h4: "symbol (advance_n ''truest'' 4 (ParserState_init ''truest'')) = CHR ''s''
            \<and> offset (ParserState_init ''truest'') = 0"
    by code_simp
  from read_bool_after_skip [OF h1 h2, of False] h1 h2 h3 h4 show ?thesis
    by simp
qed

text \<open>
  After whitespace alone, whatever the input: a cursor followed by \<open>k\<close> whitespace
  bytes and then the literal.
\<close>

lemma read_bool_after_whitespace:
  assumes ok: "cursor_ok input s"
    and ws: "\<forall>i<k. isspace (input ! (offset s + i))"
  shows "(take 4 (drop (offset s + k) input) = ''true'' \<longrightarrow>
            read_bool input value s = (True, True, advance_n input (k + 4) s))
       \<and> (take 5 (drop (offset s + k) input) = ''false'' \<longrightarrow>
            read_bool input value s = (True, False, advance_n input (k + 5) s))"
proof -
  have t: "read_bool input value s = (True, True, advance_n input (k + 4) s)"
    if h: "take 4 (drop (offset s + k) input) = ''true''"
  proof -
    from take_drop_nth [OF h] have le: "offset s + k + 4 \<le> length input"
      and nth: "\<forall>i<4. input ! (offset s + k + i) = ''true'' ! i" by simp_all
    have c: "input ! (offset s + k) = CHR ''t''" using nth [rule_format, of 0] by simp
    have skip: "skip_comments_and_whitespace_fail_if_eof input s = (True, advance_n input k s)"
      using le c by (intro skip_whitespace_run [OF ok _ ws]) (simp_all add: isspace_def)
    have o: "offset (advance_n input k s) = offset s + k"
      using advance_n_offset [OF ok, of k] le by simp
    show ?thesis
      using read_bool_after_skip [OF ok skip, of "value"] h
      by (simp add: o advance_n_add)
  qed
  have f: "read_bool input value s = (True, False, advance_n input (k + 5) s)"
    if h: "take 5 (drop (offset s + k) input) = ''false''"
  proof -
    from take_drop_nth [OF h] have le: "offset s + k + 5 \<le> length input"
      and nth: "\<forall>i<5. input ! (offset s + k + i) = ''false'' ! i" by simp_all
    have c: "input ! (offset s + k) = CHR ''f''" using nth [rule_format, of 0] by simp
    have skip: "skip_comments_and_whitespace_fail_if_eof input s = (True, advance_n input k s)"
      using le c by (intro skip_whitespace_run [OF ok _ ws]) (simp_all add: isspace_def)
    have o: "offset (advance_n input k s) = offset s + k"
      using advance_n_offset [OF ok, of k] le by simp
    show ?thesis
      using read_bool_after_skip [OF ok skip, of "value"] h
      by (simp add: o advance_n_add)
  qed
  from t f show ?thesis by blast
qed

text \<open>
  C10 asks that \<^verbatim>\<open>read_bool\<close> succeed, without a delimiter after the literal, on every
  input whose bytes after whitespace and comments begin with \<^verbatim>\<open>true\<close> or \<^verbatim>\<open>false\<close>.
  The code does not when a comment comes first: on \<^verbatim>\<open>/* c */ true\<close> the skip returns
  right after the comment, with the cursor on the space at offset 7, and \<^verbatim>\<open>read_bool\<close>
  fails there with \<^verbatim>\<open>TrueOrFalseExpected\<close> and the output unchanged, although the
  bytes from offset 8 are \<^verbatim>\<open>true\<close>. This is the early return of the skip after a
  comment; the absence of a delimiter plays no part in it.
\<close>

theorem read_bool_fails_after_comment:
  "skip_comments_and_whitespace comment_true_input (ParserState_init comment_true_input)
     = (True, \<lparr>offset = 7, line = 1, column = 8, symbol = CHR '' '',
               error = \<lparr>error_code = NoError, error_line = 0, error_column = 0\<rparr>\<rparr>)
   \<and> take 4 (drop 8 comment_true_input) = ''true''
   \<and> read_bool comment_true_input False (ParserState_init comment_true_input)
     = (False, False,
        \<lparr>offset = 7, line = 1, column = 8, symbol = CHR '' '',
         error = \<lparr>error_code = TrueOrFalseExpected, error_line = 1, error_column = 8\<rparr>\<rparr>)"
  by code_simp

section \<open>Key mismatch\<close>

text \<open>
  What \<^verbatim>\<open>read_key\<close> does once its own skip has stopped and its key token has been read
  there: if the bytes of the token differ from the requested name, it returns false,
  the cursor (offset, line, column, symbol) is back where the skip had left it, and the
  error is \<^verbatim>\<open>IncorrectKey\<close>, recorded at that position: the error is set after the
  restore, not reverted by it. The comparison is byte for byte, so \<^verbatim>\<open>Name\<close> does not
  match \<^verbatim>\<open>name\<close>.
\<close>

lemma read_key_mismatch_after_skip:
  assumes skip: "skip_comments_and_whitespace_fail_if_eof input s = (True, s1)"
    and token: "read_key_token input s1 = (True, actual, s2)"
    and differs: "view_bytes input actual \<noteq> having_name"
  shows "fst (read_key input having_name s) = False
         \<and> offset (snd (read_key input having_name s)) = offset s1
         \<and> line (snd (read_key input having_name s)) = line s1
         \<and> column (snd (read_key input having_name s)) = column s1
         \<and> symbol (snd (read_key input having_name s)) = symbol s1
         \<and> error (snd (read_key input having_name s))
             = \<lparr>error_code = IncorrectKey, error_line = line s1, error_column = column s1\<rparr>"
  using differs
  by (simp add: read_key_def skip token view_differs_def save_state_def restore_state_def
      set_error_def)

lemma read_key_Name_example:
  "skip_comments_and_whitespace_fail_if_eof ''name = 1'' (ParserState_init ''name = 1'')
     = (True, ParserState_init ''name = 1'')
   \<and> read_key_token ''name = 1'' (ParserState_init ''name = 1'')
     = (True, StringView 0 4, advance_n ''name = 1'' 5 (ParserState_init ''name = 1''))
   \<and> view_bytes ''name = 1'' (StringView 0 4) = ''name''
   \<and> ''name'' \<noteq> ''Name''
   \<and> fst (read_key ''name = 1'' ''Name'' (ParserState_init ''name = 1'')) = False
   \<and> offset (snd (read_key ''name = 1'' ''Name'' (ParserState_init ''name = 1''))) = 0
   \<and> symbol (snd (read_key ''name = 1'' ''Name'' (ParserState_init ''name = 1''))) = CHR ''n''
   \<and> error (snd (read_key ''name = 1'' ''Name'' (ParserState_init ''name = 1'')))
       = \<lparr>error_code = IncorrectKey, error_line = 1, error_column = 1\<rparr>"
proof -
  have h1: "skip_comments_and_whitespace_fail_if_eof ''name = 1'' (ParserState_init ''name = 1'')
            = (True, ParserState_init ''name = 1'')"
    by code_simp
  have h2: "read_key_token ''name = 1'' (ParserState_init ''name = 1'')
            = (True, StringView 0 4, advance_n ''name = 1'' 5 (ParserState_init ''name = 1''))"
    by code_simp
  have h3: "view_bytes ''name = 1'' (StringView 0 4) \<noteq> ''Name''"
    by code_simp
  have h4: "view_bytes ''name = 1'' (StringView 0 4) = ''name''"
    by code_simp
  have h5: "offset (ParserState_init ''name = 1'') = 0
            \<and> symbol (ParserState_init ''name = 1'') = CHR ''n''
            \<and> line (ParserState_init ''name = 1'') = 1
            \<and> column (ParserState_init ''name = 1'') = 1"
    by code_simp
  from read_key_mismatch_after_skip [OF h1 h2 h3] h1 h2 h4 h5 show ?thesis
    by simp
qed

text \<open>
  C4 asks that \<^verbatim>\<open>read_key\<close> fail with \<^verbatim>\<open>IncorrectKey\<close>, the cursor restored to right
  before the key token, on every input whose next token after whitespace and comments
  is a key that differs from the requested name. The code does not when a comment comes
  first, because the skip returns right after the first comment and the key token is
  read from there. On \<^verbatim>\<open>/* a *//* b */ name = 1\<close> the token read is the opening
  \<^verbatim>\<open>/*\<close> of the second comment, so \<^verbatim>\<open>read_key("/*")\<close> returns true and leaves the cursor
  inside that comment, although the key of the input is \<^verbatim>\<open>name\<close>. On
  \<^verbatim>\<open>/* c */ name = 1\<close> the token read is the empty key at the space after the comment,
  so even the right name is rejected with \<^verbatim>\<open>IncorrectKey\<close>, and the cursor goes back
  to that space at offset 7, not to the key at offset 8.
\<close>

theorem read_key_misreads_after_comment:
  "take 4 (drop 15 two_comments_key_input) = ''name''
   \<and> read_key two_comments_key_input ''/*'' (ParserState_init two_comments_key_input)
     = (True, \<lparr>offset = 10, line = 1, column = 11, symbol = CHR ''b'',
               error = \<lparr>error_code = NoError, error_line = 0, error_column = 0\<rparr>\<rparr>)
   \<and> take 4 (drop 8 comment_key_input) = ''name''
   \<and> read_key comment_key_input ''name'' (ParserState_init comment_key_input)
     = (False, \<lparr>offset = 7, line = 1, column = 8, symbol = CHR '' '',
                error = \<lparr>error_code = IncorrectKey, error_line = 1, error_column = 8\<rparr>\<rparr>)"
proof -
  have a: "take 4 (drop 15 two_comments_key_input) = ''name''"
    by code_simp
  have b: "read_key two_comments_key_input ''/*'' (ParserState_init two_comments_key_input)
     = (True, \<lparr>offset = 10, line = 1, column = 11, symbol = CHR ''b'',
               error = \<lparr>error_code = NoError, error_line = 0, error_column = 0\<rparr>\<rparr>)"
    by code_simp
  have c: "take 4 (drop 8 comment_key_input) = ''name''"
    by code_simp
  from a b c comment_key_rejected show ?thesis by (intro conjI)
qed

section \<open>Speculative reads\<close>

text \<open>
  C3: a failed \<^verbatim>\<open>try_read\<close> gives back the saved state as a whole (offset, line, column,
  symbol and error are those before the attempt) and resets its output: the string
  variant sets the view to the null view, the array variant sets each of the
  \<^verbatim>\<open>num_elements\<close> elements of the array to 0.0 and keeps the length of the array.
\<close>

theorem try_read_failure_resets:
  "(try_read_StringView input key value s = (False, value', s')
      \<longrightarrow> s' = s \<and> value' = NullView)
   \<and> (try_read_doubles strtod input key values num_elements s = Some (False, values', s')
      \<longrightarrow> s' = s
        \<and> length values' = length values
        \<and> (\<forall>i < length values. i < num_elements \<longrightarrow> values' ! i = 0))"
proof -
  have a: "s' = s \<and> value' = NullView"
    if "try_read_StringView input key value s = (False, value', s')"
    using that
    by (auto simp: try_read_StringView_def save_state_def restore_state_def Let_def
        split: prod.splits bool.splits)
  have b: "s' = s \<and> length values' = length values
           \<and> (\<forall>i < length values. i < num_elements \<longrightarrow> values' ! i = 0)"
    if "try_read_doubles strtod input key values num_elements s = Some (False, values', s')"
    using that
    by (auto simp: try_read_doubles_def save_state_def restore_state_def Let_def
        zero_values_loop_nth
        split: prod.splits bool.splits option.splits
        dest: read_doubles_keyed_length)
  from a b show ?thesis by blast
qed

theorem try_read_failure_resets_witness:
  "try_read_StringView truncated_array_input ''a'' (StringView 0 1)
       (ParserState_init truncated_array_input)
     = (False, NullView, ParserState_init truncated_array_input)
   \<and> fst (read_StringView truncated_array_input ''a'' (StringView 0 1)
       (ParserState_init truncated_array_input)) = False
   \<and> error_code (error (snd (snd (read_StringView truncated_array_input ''a'' (StringView 0 1)
       (ParserState_init truncated_array_input))))) = QuotationMarkExpected
   \<and> try_read_doubles strtod_decimal truncated_array_input ''a'' [7, 8, 9] 3
       (ParserState_init truncated_array_input)
     = Some (False, [0, 0, 0], ParserState_init truncated_array_input)
   \<and> read_doubles_keyed strtod_decimal truncated_array_input ''a'' [7, 8, 9] 3
       (ParserState_init truncated_array_input)
     = Some (False, [1, 2, 9],
         set_error InputTruncated (advance_n truncated_array_input 9
           (ParserState_init truncated_array_input)))"
proof -
  have h1: "try_read_StringView truncated_array_input ''a'' (StringView 0 1)
       (ParserState_init truncated_array_input)
     = (False, NullView, ParserState_init truncated_array_input)"
    by code_simp
  have h2: "try_read_doubles strtod_decimal truncated_array_input ''a'' [7, 8, 9] 3
       (ParserState_init truncated_array_input)
     = Some (False, [0, 0, 0], ParserState_init truncated_array_input)"
    by code_simp
  have h3: "fst (read_StringView truncated_array_input ''a'' (StringView 0 1)
       (ParserState_init truncated_array_input)) = False
   \<and> error_code (error (snd (snd (read_StringView truncated_array_input ''a'' (StringView 0 1)
       (ParserState_init truncated_array_input))))) = QuotationMarkExpected"
    by code_simp
  have h4: "read_doubles_keyed strtod_decimal truncated_array_input ''a'' [7, 8, 9] 3
       (ParserState_init truncated_array_input)
     = Some (False, [1, 2, 9],
         set_error InputTruncated (advance_n truncated_array_input 9
           (ParserState_init truncated_array_input)))"
    by code_simp
  from try_read_failure_resets [of truncated_array_input "''a''" "StringView 0 1"
      "ParserState_init truncated_array_input" NullView "ParserState_init truncated_array_input"
      strtod_decimal "[7, 8, 9]" 3 "[0, 0, 0]"] h1 h2 h3 h4
  show ?thesis by simp
qed

section \<open>Quoted strings\<close>

text \<open>
  What \<^verbatim>\<open>read_string\<close> does when its own skip leaves the cursor on an opening
  quotation mark: it returns the slice that starts right after that mark and ends right
  before the closing one, the first quotation mark not escaped by a backslash; the
  slice is a view of the input, so its bytes are the raw bytes of the buffer,
  backslashes and escaped bytes included, and the cursor ends right after the closing
  mark. If the input ends before a closing mark, \<^verbatim>\<open>read_string\<close> fails with
  \<^verbatim>\<open>InputTruncated\<close> and leaves the output as it was.
\<close>

lemma read_string_after_skip:
  assumes len: "length input < 2 ^ 64"
    and ok: "cursor_ok input s"
    and skip: "skip_comments_and_whitespace_fail_if_eof input s = (True, s1)"
    and quote: "symbol s1 = CHR 0x22"
  shows "read_string input value s =
           (case closing_quote (drop (offset s1 + 1) input) of
              None \<Rightarrow> (False, value,
                  set_error InputTruncated (advance_n input (length input - offset s1) s1))
            | Some n \<Rightarrow> (True, StringView (offset s1 + 1) n, advance_n input (n + 2) s1))
         \<and> (\<forall>n. closing_quote (drop (offset s1 + 1) input) = Some n \<longrightarrow>
               offset s1 + 1 + n < length input
               \<and> input ! (offset s1 + 1 + n) = CHR 0x22
               \<and> view_bytes input (StringView (offset s1 + 1) n)
                   = take n (drop (offset s1 + 1) input)
               \<and> length (view_bytes input (StringView (offset s1 + 1) n)) = n
               \<and> offset (advance_n input (n + 2) s1) = offset s1 + n + 2
               \<and> cursor_ok input (advance_n input (n + 2) s1))"
proof -
  have ok1: "cursor_ok input s1" and lt: "offset s1 < length input"
    using skip_fail_if_eof_ok [OF ok skip] by simp_all
  let ?s2 = "snd (advance input s1)"
  have ok2: "cursor_ok input ?s2" using ok1 by (rule cursor_ok_advance)
  have o2: "offset ?s2 = offset s1 + 1" using lt by (rule offset_advance_lt)
  have loop: "read_string_loop input ?s2 =
     (case closing_quote (drop (offset s1 + 1) input) of
        None \<Rightarrow> (None, set_error InputTruncated
                  (advance_n input (length input - offset s1) s1))
      | Some n \<Rightarrow> (Some (size_t_sub (offset s1 + 1 + n) 1), advance_n input (n + 2) s1))"
    using read_string_loop_spec [OF ok2] advance_n_Suc_front [OF lt]
    by (simp add: o2 split: option.splits)
  have facts: "offset s1 + 1 + n < length input \<and> input ! (offset s1 + 1 + n) = CHR 0x22"
    if "closing_quote (drop (offset s1 + 1) input) = Some n" for n
    using closing_quote_index [OF that] lt by (auto simp: add.commute add.left_commute)
  have slice: "size_t_add (size_t_sub (size_t_sub (offset s1 + 1 + n) 1) (offset s1 + 1)) 1 = n"
    if "closing_quote (drop (offset s1 + 1) input) = Some n" for n
  proof -
    have "offset s1 + 1 + n < 2 ^ 64" using facts [OF that] len by simp
    then show ?thesis
      using size_t_slice_length [of "offset s1 + 1" "offset s1 + 1 + n"] by simp
  qed
  have main: "read_string input value s =
           (case closing_quote (drop (offset s1 + 1) input) of
              None \<Rightarrow> (False, value,
                  set_error InputTruncated (advance_n input (length input - offset s1) s1))
            | Some n \<Rightarrow> (True, StringView (offset s1 + 1) n, advance_n input (n + 2) s1))"
  proof (cases "closing_quote (drop (offset s1 + 1) input)")
    case None
    then show ?thesis
      using loop by (simp add: read_string_def skip quote Let_def)
  next
    case (Some n)
    then show ?thesis
      using loop slice [OF Some] by (simp add: read_string_def skip quote Let_def o2)
  qed
  have rest: "offset s1 + 1 + n < length input
               \<and> input ! (offset s1 + 1 + n) = CHR 0x22
               \<and> view_bytes input (StringView (offset s1 + 1) n)
                   = take n (drop (offset s1 + 1) input)
               \<and> length (view_bytes input (StringView (offset s1 + 1) n)) = n
               \<and> offset (advance_n input (n + 2) s1) = offset s1 + n + 2
               \<and> cursor_ok input (advance_n input (n + 2) s1)"
    if h: "closing_quote (drop (offset s1 + 1) input) = Some n" for n
  proof -
    have le: "offset s1 + (n + 2) \<le> length input" using facts [OF h] by simp
    show ?thesis
      using facts [OF h] advance_n_offset [OF ok1 le] by (auto simp: min_def)
  qed
  from main rest show ?thesis by blast
qed

lemma read_string_escaped_quote_example:
  "length escaped_quote_input < 2 ^ 64
   \<and> cursor_ok escaped_quote_input (ParserState_init escaped_quote_input)
   \<and> skip_comments_and_whitespace_fail_if_eof escaped_quote_input
        (ParserState_init escaped_quote_input) = (True, ParserState_init escaped_quote_input)
   \<and> symbol (ParserState_init escaped_quote_input) = CHR 0x22
   \<and> read_string escaped_quote_input NullView (ParserState_init escaped_quote_input)
       = (True, StringView 1 4, advance_n escaped_quote_input 6
                                  (ParserState_init escaped_quote_input))
   \<and> view_bytes escaped_quote_input (StringView 1 4) = [CHR ''a'', CHR 0x5C, CHR 0x22, CHR ''b'']
   \<and> eof escaped_quote_input (advance_n escaped_quote_input 6
         (ParserState_init escaped_quote_input))"
proof -
  have h1: "length escaped_quote_input < 2 ^ 64"
    by (simp add: escaped_quote_input_def)
  have h2: "cursor_ok escaped_quote_input (ParserState_init escaped_quote_input)"
    by (rule cursor_ok_init)
  have h3: "skip_comments_and_whitespace_fail_if_eof escaped_quote_input
        (ParserState_init escaped_quote_input) = (True, ParserState_init escaped_quote_input)"
    by code_simp
  have h4: "symbol (ParserState_init escaped_quote_input) = CHR 0x22"
    by code_simp
  have c: "closing_quote (drop (offset (ParserState_init escaped_quote_input) + 1)
             escaped_quote_input) = Some 4"
    by code_simp
  have o: "offset (ParserState_init escaped_quote_input) = 0"
    by code_simp
  have v: "view_bytes escaped_quote_input (StringView 1 4)
           = [CHR ''a'', CHR 0x5C, CHR 0x22, CHR ''b'']"
    by code_simp
  have e: "eof escaped_quote_input (advance_n escaped_quote_input 6
         (ParserState_init escaped_quote_input))"
    by code_simp
  from read_string_after_skip [OF h1 h2 h3 h4, of NullView] h1 h2 h3 h4 c o v e
  show ?thesis by simp
qed

text \<open>
  After whitespace alone, whatever the input: a cursor followed by \<open>k\<close> whitespace
  bytes and then an opening quotation mark.
\<close>

lemma read_string_after_whitespace:
  assumes len: "length input < 2 ^ 64"
    and ok: "cursor_ok input s"
    and ws: "\<forall>i<k. isspace (input ! (offset s + i))"
    and lt: "offset s + k < length input"
    and quote: "input ! (offset s + k) = CHR 0x22"
  shows "read_string input value s =
           (case closing_quote (drop (offset s + k + 1) input) of
              None \<Rightarrow> (False, value,
                  set_error InputTruncated (advance_n input (length input - offset s) s))
            | Some n \<Rightarrow> (True, StringView (offset s + k + 1) n, advance_n input (k + (n + 2)) s))"
proof -
  have skip: "skip_comments_and_whitespace_fail_if_eof input s = (True, advance_n input k s)"
    using lt quote by (intro skip_whitespace_run [OF ok _ ws]) (simp_all add: isspace_def)
  have o: "offset (advance_n input k s) = offset s + k"
    and okk: "cursor_ok input (advance_n input k s)"
    using advance_n_offset [OF ok, of k] lt by simp_all
  have sym: "symbol (advance_n input k s) = CHR 0x22"
    using symbol_at [OF okk] lt quote by (simp add: o)
  have e: "k + (length input - (offset s + k)) = length input - offset s"
    using lt by simp
  show ?thesis
    using read_string_after_skip [OF len ok skip sym, of "value"]
    by (simp add: o e advance_n_add [symmetric] split: option.splits)
qed

text \<open>
  C5 asks that \<^verbatim>\<open>read_string\<close> return the raw bytes between the quotation marks on
  every input whose next token is a quoted string. The code does not when a comment
  comes first: on \<^verbatim>\<open>// c\<close>, newline, \<^verbatim>\<open>"a"\<close> the skip returns right after the comment,
  with the cursor on the newline at offset 4, and \<^verbatim>\<open>read_string\<close> fails there with
  \<^verbatim>\<open>QuotationMarkExpected\<close> and the output unchanged, although the bytes from offset 5
  are the string \<^verbatim>\<open>"a"\<close>. This is the early return of the skip after a comment; the
  scan between the quotation marks is as C5 describes it.
\<close>

theorem read_string_fails_after_comment:
  "skip_comments_and_whitespace comment_string_input (ParserState_init comment_string_input)
     = (True, \<lparr>offset = 4, line = 2, column = 1, symbol = CHR 0x0A,
               error = \<lparr>error_code = NoError, error_line = 0, error_column = 0\<rparr>\<rparr>)
   \<and> drop 5 comment_string_input = [CHR 0x22, CHR ''a'', CHR 0x22]
   \<and> read_string comment_string_input NullView (ParserState_init comment_string_input)
     = (False, NullView,
        \<lparr>offset = 4, line = 2, column = 1, symbol = CHR 0x0A,
         error = \<lparr>error_code = QuotationMarkExpected, error_line = 2, error_column = 1\<rparr>\<rparr>)"
  by code_simp

section \<open>The length limit of numbers\<close>

text \<open>
  C6: once \<^verbatim>\<open>read_double\<close> has matched a numeric lexeme (from the cursor after its
  skip to the cursor after the last matched byte), the length of the lexeme decides:
  a lexeme of at most 63 bytes is handed, byte for byte, to the conversion routine,
  whose result is the value read (and the read succeeds if the routine used the whole
  lexeme); a lexeme of 64 bytes or more makes \<^verbatim>\<open>read_double\<close> fail with
  \<^verbatim>\<open>NumberIsTooLong\<close>, the output untouched and nothing converted.
\<close>

theorem read_double_length_limit:
  assumes len: "length input < 2 ^ 64"
    and ok: "cursor_ok input s"
    and skip: "skip_comments_and_whitespace_fail_if_eof input s = (True, s1)"
    and lexeme: "read_double_lexeme input s1 = Some (True, s2)"
  shows "offset s1 < offset s2 \<and> offset s2 \<le> length input
         \<and> (offset s2 - offset s1 \<le> 63 \<longrightarrow>
              read_double strtod input value s =
                Some (if snd (strtod (take (offset s2 - offset s1) (drop (offset s1) input)))
                         = offset s2 - offset s1
                      then (True,
                            fst (strtod (take (offset s2 - offset s1) (drop (offset s1) input))),
                            s2)
                      else (False,
                            fst (strtod (take (offset s2 - offset s1) (drop (offset s1) input))),
                            set_error NumberCouldNotBeConverted s2)))
         \<and> (64 \<le> offset s2 - offset s1 \<longrightarrow>
              read_double strtod input value s
                = Some (False, value, set_error NumberIsTooLong s2))"
proof -
  have ok1: "cursor_ok input s1" using skip_fail_if_eof_ok [OF ok skip] by simp
  from read_double_lexeme_returns [OF ok1] lexeme
  have ok2: "cursor_ok input s2" and lt: "offset s1 < offset s2" by auto
  have le: "offset s2 \<le> length input" using ok2 by (simp add: cursor_ok_def)
  have n: "size_t_add (size_t_sub (size_t_sub (offset s2) 1) (offset s1)) 1
           = offset s2 - offset s1"
    using lt le len by (intro size_t_slice_length) simp_all
  have rd: "read_double strtod input value s
            = Some (read_double_convert strtod input (offset s1) value s2)"
    by (simp add: read_double_def skip lexeme)
  have conv: "read_double_convert strtod input (offset s1) value s2 =
      (if 64 \<le> offset s2 - offset s1 then (False, value, set_error NumberIsTooLong s2)
       else if snd (strtod (take (offset s2 - offset s1) (drop (offset s1) input)))
                 \<noteq> offset s2 - offset s1
       then (False, fst (strtod (take (offset s2 - offset s1) (drop (offset s1) input))),
             set_error NumberCouldNotBeConverted s2)
       else (True, fst (strtod (take (offset s2 - offset s1) (drop (offset s1) input))), s2))"
    unfolding read_double_convert_def Let_def n MAX_NUMBER_LENGTH_def
    by (simp add: case_prod_beta)
  show ?thesis
    using lt le by (simp add: rd conv)
qed

theorem read_double_length_limit_witness:
  "(length digits_63 < 2 ^ 64
    \<and> cursor_ok digits_63 (ParserState_init digits_63)
    \<and> skip_comments_and_whitespace_fail_if_eof digits_63 (ParserState_init digits_63)
        = (True, ParserState_init digits_63)
    \<and> read_double_lexeme digits_63 (ParserState_init digits_63)
        = Some (True, advance_n digits_63 63 (ParserState_init digits_63))
    \<and> read_double strtod_decimal digits_63 0 (ParserState_init digits_63)
        = Some (True, fst (strtod_decimal digits_63),
                advance_n digits_63 63 (ParserState_init digits_63)))
   \<and> (length digits_64 < 2 ^ 64
    \<and> cursor_ok digits_64 (ParserState_init digits_64)
    \<and> skip_comments_and_whitespace_fail_if_eof digits_64 (ParserState_init digits_64)
        = (True, ParserState_init digits_64)
    \<and> read_double_lexeme digits_64 (ParserState_init digits_64)
        = Some (True, advance_n digits_64 64 (ParserState_init digits_64))
    \<and> read_double strtod_decimal digits_64 0 (ParserState_init digits_64)
        = Some (False, 0, set_error NumberIsTooLong
                (advance_n digits_64 64 (ParserState_init digits_64))))"
proof -
  have a1: "length digits_63 < 2 ^ 64" by (simp add: digits_63_def)
  have a2: "cursor_ok digits_63 (ParserState_init digits_63)" by (rule cursor_ok_init)
  have a3: "skip_comments_and_whitespace_fail_if_eof digits_63 (ParserState_init digits_63)
            = (True, ParserState_init digits_63)"
    by code_simp
  have a4: "read_double_lexeme digits_63 (ParserState_init digits_63)
            = Some (True, advance_n digits_63 63 (ParserState_init digits_63))"
    by code_simp
  have a5: "offset (ParserState_init digits_63) = 0
            \<and> offset (advance_n digits_63 63 (ParserState_init digits_63)) = 63"
    by code_simp
  have a6: "take 63 (drop 0 digits_63) = digits_63 \<and> snd (strtod_decimal digits_63) = 63"
    by code_simp
  have b1: "length digits_64 < 2 ^ 64" by (simp add: digits_64_def)
  have b2: "cursor_ok digits_64 (ParserState_init digits_64)" by (rule cursor_ok_init)
  have b3: "skip_comments_and_whitespace_fail_if_eof digits_64 (ParserState_init digits_64)
            = (True, ParserState_init digits_64)"
    by code_simp
  have b4: "read_double_lexeme digits_64 (ParserState_init digits_64)
            = Some (True, advance_n digits_64 64 (ParserState_init digits_64))"
    by code_simp
  have b5: "offset (ParserState_init digits_64) = 0
            \<and> offset (advance_n digits_64 64 (ParserState_init digits_64)) = 64"
    by code_simp
  have a: "read_double strtod_decimal digits_63 0 (ParserState_init digits_63)
        = Some (True, fst (strtod_decimal digits_63),
                advance_n digits_63 63 (ParserState_init digits_63))"
    using read_double_length_limit [OF a1 a2 a3 a4, of strtod_decimal 0] a5 a6 by simp
  have b: "read_double strtod_decimal digits_64 0 (ParserState_init digits_64)
        = Some (False, 0, set_error NumberIsTooLong
                (advance_n digits_64 64 (ParserState_init digits_64)))"
    using read_double_length_limit [OF b1 b2 b3 b4, of strtod_decimal 0] b5 by simp
  from a b a1 a2 a3 a4 b1 b2 b3 b4 show ?thesis by blast
qed

section \<open>The scenario of a comment and two keyed values\<close>

text \<open>
  C2, as the code has it: on the scenario input \<^verbatim>\<open>object_begins()\<close> fails; then
  \<^verbatim>\<open>read("name", slice)\<close> and \<^verbatim>\<open>read("count", d)\<close> both succeed, the slice is the five
  bytes \<^verbatim>\<open>hello\<close> and \<open>d\<close> is what the conversion routine makes of the lexeme
  \<^verbatim>\<open>3.5\<close>. After the second read the cursor is on the last byte of the input, the
  newline at offset 33 of 34, so \<^verbatim>\<open>eof()\<close> is false there: a value reader consumes
  nothing after its value. Only a following \<^verbatim>\<open>remainder_is_comments_and_whitespace()\<close>
  moves the cursor to the end of the input.
\<close>

theorem scenario_reads:
  assumes "strtod ''3.5'' = (d, 3)"
  shows "object_begins scenario_input (ParserState_init scenario_input)
           = (False, scenario_after_begin)
         \<and> read_StringView scenario_input ''name'' NullView scenario_after_begin
           = (True, StringView 15 5, scenario_after_name)
         \<and> view_bytes scenario_input (StringView 15 5) = ''hello''
         \<and> read_double_keyed strtod scenario_input ''count'' d0 scenario_after_name
           = Some (True, d, scenario_after_count)
         \<and> offset scenario_after_count = 33 \<and> length scenario_input = 34
         \<and> symbol scenario_after_count = CHR 0x0A
         \<and> \<not> eof scenario_input scenario_after_count
         \<and> remainder_is_comments_and_whitespace scenario_input scenario_after_count
           = (True, scenario_end)
         \<and> eof scenario_input scenario_end"
proof -
  have conv: "read_double_convert strtod scenario_input (offset scenario_at_number) d0
                scenario_after_count = (True, d, scenario_after_count)"
    unfolding read_double_convert_def Let_def
    by (simp only: scenario_number_slice assms MAX_NUMBER_LENGTH_def) simp
  have "read_double strtod scenario_input d0
          \<lparr>offset = 29, line = 3, column = 9, symbol = CHR '' '', error = scenario_error\<rparr>
        = Some (True, d, scenario_after_count)"
    by (simp add: read_double_def scenario_number_skip scenario_number_lexeme conv)
  then have "read_double_keyed strtod scenario_input ''count'' d0 scenario_after_name
           = Some (True, d, scenario_after_count)"
    by (simp add: read_double_keyed_def scenario_count_key)
  with scenario_begin scenario_name scenario_hello scenario_rest show ?thesis
    by simp
qed

theorem scenario_reads_witness:
  "strtod_decimal ''3.5'' = (7 / 2, 3)
   \<and> read_double_keyed strtod_decimal scenario_input ''count'' 0 scenario_after_name
       = Some (True, 7 / 2, scenario_after_count)
   \<and> \<not> eof scenario_input scenario_after_count"
proof -
  have h: "strtod_decimal ''3.5'' = (7 / 2, 3)"
    by code_simp
  from scenario_reads [of strtod_decimal "7 / 2" 0, OF h] h show ?thesis
    by simp
qed

text \<open>
  C2 as stated fails at its last conjunct: with the exact decimal conversion, both reads
  succeed with \<^verbatim>\<open>hello\<close> and 3.5, and the cursor is not at end of input afterwards.
\<close>

theorem scenario_cursor_not_at_eof:
  "object_begins scenario_input (ParserState_init scenario_input)
     = (False, scenario_after_begin)
   \<and> read_StringView scenario_input ''name'' NullView scenario_after_begin
     = (True, StringView 15 5, scenario_after_name)
   \<and> read_double_keyed strtod_decimal scenario_input ''count'' 0 scenario_after_name
     = Some (True, 7 / 2, scenario_after_count)
   \<and> \<not> eof scenario_input scenario_after_count"
  by code_simp

section \<open>One call of the skip does not consume a whole run\<close>

text \<open>
  C1 asks that one call of \<^verbatim>\<open>skip_comments_and_whitespace()\<close> consume a whole run of
  whitespace and comments. The code does not: on the input \<^verbatim>\<open>// c\<close>, newline, \<^verbatim>\<open>x\<close> the
  call returns true with the cursor on the newline at offset 4, a whitespace byte that
  is not the end of the input, because the loop returns after the comment instead of
  continuing. For the same reason \<^verbatim>\<open>remainder_is_comments_and_whitespace()\<close> rejects
  the input \<^verbatim>\<open>// c\<close>, newline, which holds nothing but a comment and whitespace.
\<close>

theorem skip_stops_after_first_comment:
  "skip_comments_and_whitespace comment_line_input (ParserState_init comment_line_input)
     = (True, \<lparr>offset = 4, line = 2, column = 1, symbol = CHR 0x0A,
               error = \<lparr>error_code = NoError, error_line = 0, error_column = 0\<rparr>\<rparr>)
   \<and> isspace (CHR 0x0A)
   \<and> \<not> eof comment_line_input
         \<lparr>offset = 4, line = 2, column = 1, symbol = CHR 0x0A,
          error = \<lparr>error_code = NoError, error_line = 0, error_column = 0\<rparr>\<rparr>
   \<and> remainder_is_comments_and_whitespace comment_only_input
         (ParserState_init comment_only_input)
     = (False, \<lparr>offset = 4, line = 2, column = 1, symbol = CHR 0x0A,
                error = \<lparr>error_code = UnexpectedContentAtEnd, error_line = 2,
                          error_column = 1\<rparr>\<rparr>)"
  by code_simp

end
